theory Spec2Isabelle
  imports Main "HOL-Library.AList"
begin

section \<open>Python primitives used by \<^verbatim>\<open>mapchete/index.py\<close>\<close>

text \<open>
  \<^verbatim>\<open>str(n)\<close> of an integer is its decimal numeral, with a leading minus sign for a
  negative one.
\<close>

definition digit_char :: "nat \<Rightarrow> char" where
  "digit_char d = ''0123456789'' ! d"

fun str_nat :: "nat \<Rightarrow> string" where
  "str_nat n =
     (if n < 10 then [digit_char n] else str_nat (n div 10) @ [digit_char (n mod 10)])"

declare str_nat.simps [simp del]

definition str_int :: "int \<Rightarrow> string" where
  "str_int i = (if i < 0 then CHR ''-'' # str_nat (nat (- i)) else str_nat (nat i))"

text \<open>
  \<^verbatim>\<open>s.split("/")\<close>: the fields between the separators; the empty string has the one
  field \<^verbatim>\<open>""\<close>. \<^verbatim>\<open>"/".join(xs)\<close> puts the separator between the fields, and
  \<^verbatim>\<open>xs[-3:]\<close> keeps the last three elements, or all of them when there are fewer.
\<close>

fun str_split :: "char \<Rightarrow> string \<Rightarrow> string list" where
  "str_split c [] = [[]]"
| "str_split c (x # xs) =
     (if x = c then [] # str_split c xs
      else (case str_split c xs of [] \<Rightarrow> [[x]] | s # ss \<Rightarrow> (x # s) # ss))"

fun str_join :: "string \<Rightarrow> string list \<Rightarrow> string" where
  "str_join sep [] = []"
| "str_join sep [x] = x"
| "str_join sep (x # y # ys) = x @ sep @ str_join sep (y # ys)"

definition last_three :: "'a list \<Rightarrow> 'a list" where
  "last_three xs = drop (length xs - 3) xs"

text \<open>
  \<^verbatim>\<open>os.path.join(a, b)\<close> of \<^verbatim>\<open>posixpath\<close>: an absolute second component discards
  the first one; otherwise the components are joined by one slash, which is left out when
  the first component is empty or already ends with a slash.
\<close>

definition os_path_join :: "string \<Rightarrow> string \<Rightarrow> string" where
  "os_path_join a b =
     (if b \<noteq> [] \<and> hd b = CHR ''/'' then b
      else if a = [] \<or> last a = CHR ''/'' then a @ b
      else a @ ''/'' @ b)"

text \<open>
  Exceptions. \<^verbatim>\<open>GeneratorExit\<close> and \<^verbatim>\<open>KeyboardInterrupt\<close> derive from
  \<^verbatim>\<open>BaseException\<close> only, so \<^verbatim>\<open>except Exception\<close> does not catch them; \<open>OSError\<close>
  stands for any error of the file layer (fiona, the operating system).
\<close>

datatype exn =
    ValueError string
  | NotImplementedError string
  | KeyError string
  | OSError string
  | GeneratorExit
  | KeyboardInterrupt

fun is_Exception :: "exn \<Rightarrow> bool" where
  "is_Exception GeneratorExit = False"
| "is_Exception KeyboardInterrupt = False"
| "is_Exception _ = True"

section \<open>Data model\<close>

text \<open>
  A tile of the pyramid (class of the external grid library): its index, its bounding
  polygon and the reference system the polygon is given in. The identifier \<^verbatim>\<open>tile.id\<close>
  is the index triple; Modelled from the spec: the tile class is not part of the module,
  the spec derives \<open>tile_id\<close> from zoom, row and column, and \<open>str_index\<close> prints the
  triple the way Python prints a tuple.
\<close>

type_synonym polygon = "(int \<times> int) list"

record tile =
  zoom :: int
  row :: int
  col :: int
  bbox :: polygon
  tile_crs :: string

definition tile_id :: "tile \<Rightarrow> int \<times> int \<times> int" where
  "tile_id t = (zoom t, row t, col t)"

fun str_index :: "int \<times> int \<times> int \<Rightarrow> string" where
  "str_index (z, r, c) =
     ''('' @ str_int z @ '', '' @ str_int r @ '', '' @ str_int c @ '')''"

text \<open>
  A feature of an index file: a geometry and a dictionary of properties. A property read
  back from a file can be an integer; every property the writer produces is a string.
  \<open>mapping\<close> is shapely's conversion of a polygon to its GeoJSON-like form.
\<close>

datatype pyval = PStr string | PInt int

record geometry =
  gtype :: string
  coordinates :: "polygon list"

definition mapping :: "polygon \<Rightarrow> geometry" where
  "mapping b = \<lparr>gtype = ''Polygon'', coordinates = [b]\<rparr>"

record feature =
  geometry :: geometry
  properties :: "(string \<times> pyval) list"

record schema =
  s_geometry :: string
  s_properties :: "(string \<times> string) list"

definition spatial_schema :: schema where
  "spatial_schema =
     \<lparr>s_geometry = ''Polygon'',
      s_properties =
        [(''tile_id'', ''str:254''), (''zoom'', ''int''), (''row'', ''int''), (''col'', ''int'')]\<rparr>"

text \<open>
  The world outside the module: the files of the output directory (a path holds the list
  of features of the index stored there) and the lines given to the logger. The file
  layer can fail at each operation; which operations fail is fixed by \<open>io_fault\<close>.
\<close>

datatype log_event =
    Dbg_initialize string
  | Dbg_writers "string list"
  | Dbg_analyze tile
  | Dbg_write string string
  | Dbg_exists tile bool
  | Dbg_close string
  | Dbg_new_entries nat string
  | Err_not_closed exn string

record world =
  files :: "string \<rightharpoonup> feature list"
  log :: "log_event list"

datatype io_op =
    OpenRead string
  | Remove string
  | OpenWrite string
  | WriteRecords string
  | Write string feature
  | Close string

record env =
  path_is_remote :: "string \<Rightarrow> bool"
  io_fault :: "io_op \<Rightarrow> exn option"

definition logger :: "log_event \<Rightarrow> world \<Rightarrow> world" where
  "logger ev w = w\<lparr>log := log w @ [ev]\<rparr>"

definition append_records :: "string \<Rightarrow> feature list \<Rightarrow> world \<Rightarrow> world" where
  "append_records p fs w =
     w\<lparr>files := (files w)(p \<mapsto> (case files w p of None \<Rightarrow> [] | Some old \<Rightarrow> old) @ fs)\<rparr>"

section \<open>Paths\<close>

text \<open>
  \<^verbatim>\<open>_index_file_path\<close> and \<^verbatim>\<open>_tile_path\<close> (an Isabelle name cannot start with an
  underscore). \<open>remote\<close> is \<^verbatim>\<open>mapchete.io.path_is_remote\<close>, which is not part of the
  module and is taken as a parameter. The base path is optional; \<^verbatim>\<open>if basepath\<close>
  is false for \<^verbatim>\<open>None\<close> and for the empty string.
\<close>

definition index_file_path :: "string \<Rightarrow> int \<Rightarrow> string \<Rightarrow> string" where
  "index_file_path out_dir z ext = os_path_join out_dir (str_int z @ ''.'' @ ext)"

definition tile_path :: "(string \<Rightarrow> bool) \<Rightarrow> string \<Rightarrow> string option \<Rightarrow> bool \<Rightarrow> string" where
  "tile_path remote orig_path basepath for_gdal =
     (let path =
        (case basepath of
           None \<Rightarrow> orig_path
         | Some b \<Rightarrow>
             if b \<noteq> []
             then os_path_join b (str_join ''/'' (last_three (str_split CHR ''/'' orig_path)))
             else orig_path)
      in if for_gdal \<and> remote path then ''/vsicurl/'' @ path else path)"

section \<open>The index writer\<close>

record collection =
  c_path :: string
  c_driver :: string
  c_crs :: string
  c_schema :: schema

record writer =
  w_path :: string
  w_driver :: string
  existing :: "(pyval \<times> feature) list"
  new_entries :: nat
  fieldname :: string
  file_obj :: collection

text \<open>\<^verbatim>\<open>__repr__\<close>: \<^verbatim>\<open>"VectorFileWriter(%s, %s)" % (self.driver, self.path)\<close>.\<close>

definition VectorFileWriter_repr :: "writer \<Rightarrow> string" where
  "VectorFileWriter_repr w = ''VectorFileWriter('' @ w_driver w @ '', '' @ w_path w @ '')''"

text \<open>
  The dictionary comprehension \<^verbatim>\<open>{f["properties"]["tile_id"]: f for f in src}\<close>: a
  feature without the property raises \<^verbatim>\<open>KeyError\<close>; a key met again keeps its place
  and takes the later feature.
\<close>

definition feature_tile_id :: "feature \<Rightarrow> pyval option" where
  "feature_tile_id f = map_of (properties f) ''tile_id''"

fun existing_of :: "(pyval \<times> feature) list \<Rightarrow> feature list \<Rightarrow> exn + (pyval \<times> feature) list" where
  "existing_of acc [] = Inr acc"
| "existing_of acc (f # fs) =
     (case feature_tile_id f of
        None \<Rightarrow> Inl (KeyError ''tile_id'')
      | Some k \<Rightarrow> existing_of (AList.update k f acc) fs)"

text \<open>
  The branch \<^verbatim>\<open>if os.path.isfile(self.path)\<close> of the constructor: read the stored
  features, key them by \<open>tile_id\<close>, remove the file.
\<close>

definition load_existing ::
  "env \<Rightarrow> string \<Rightarrow> feature list \<Rightarrow> world \<Rightarrow> (exn + (pyval \<times> feature) list) \<times> world" where
  "load_existing E p src w =
     (case io_fault E (OpenRead p) of
        Some e \<Rightarrow> (Inl e, w)
      | None \<Rightarrow>
          (case existing_of [] src of
             Inl e \<Rightarrow> (Inl e, w)
           | Inr ex \<Rightarrow>
               (case io_fault E (Remove p) of
                  Some e \<Rightarrow> (Inl e, w)
                | None \<Rightarrow> (Inr ex, w\<lparr>files := (files w)(p := None)\<rparr>))))"

definition VectorFileWriter_init ::
  "env \<Rightarrow> string \<Rightarrow> string \<Rightarrow> string \<Rightarrow> string \<Rightarrow> world \<Rightarrow> (exn + writer) \<times> world" where
  "VectorFileWriter_init E out_path crs fname driver w0 =
     (let w1 = logger (Dbg_initialize driver) w0 in
      if driver \<notin> set [''GeoJSON'', ''GPKG'']
      then (Inl (ValueError ''only GeoJSON and GPKG are allowed''), w1)
      else
        (case (case files w1 out_path of
                 Some src \<Rightarrow> load_existing E out_path src w1
               | None \<Rightarrow> (Inr [], w1)) of
           (Inl e, w2) \<Rightarrow> (Inl e, w2)
         | (Inr ex, w2) \<Rightarrow>
             (let sch = spatial_schema
                    \<lparr>s_properties := AList.update fname ''str:254'' (s_properties spatial_schema)\<rparr>
              in case io_fault E (OpenWrite out_path) of
                   Some e \<Rightarrow> (Inl e, w2)
                 | None \<Rightarrow>
                     (let w3 = w2\<lparr>files := (files w2)(out_path \<mapsto> [])\<rparr> in
                      case io_fault E (WriteRecords out_path) of
                        Some e \<Rightarrow> (Inl e, w3)
                      | None \<Rightarrow>
                          (Inr \<lparr>w_path = out_path, w_driver = driver, existing = ex,
                                new_entries = 0, fieldname = fname,
                                file_obj = \<lparr>c_path = out_path, c_driver = driver,
                                            c_crs = crs, c_schema = sch\<rparr>\<rparr>,
                           append_records out_path (map snd ex) w3)))))"

definition VectorFileWriter_entry_exists :: "writer \<Rightarrow> tile \<Rightarrow> world \<Rightarrow> bool \<times> world" where
  "VectorFileWriter_entry_exists wr t w =
     (let exists = PStr (str_index (tile_id t)) \<in> set (map fst (existing wr))
      in (exists, logger (Dbg_exists t exists) w))"

text \<open>
  The record of a tile: the dictionary literal of \<^verbatim>\<open>write\<close>, whose last key is the
  configured field name (a key written twice keeps its place and takes the later value).
\<close>

definition tile_record :: "string \<Rightarrow> tile \<Rightarrow> string \<Rightarrow> feature" where
  "tile_record fname t path =
     \<lparr>geometry = mapping (bbox t),
      properties =
        AList.update fname (PStr path)
          [(''tile_id'', PStr (str_index (tile_id t))),
           (''zoom'', PStr (str_int (zoom t))),
           (''row'', PStr (str_int (row t))),
           (''col'', PStr (str_int (col t)))]\<rparr>"

definition VectorFileWriter_write ::
  "env \<Rightarrow> writer \<Rightarrow> tile \<Rightarrow> string \<Rightarrow> world \<Rightarrow> exn option \<times> writer \<times> world" where
  "VectorFileWriter_write E wr t path w0 =
     (let w1 = logger (Dbg_write path (VectorFileWriter_repr wr)) w0;
          (ex, w2) = VectorFileWriter_entry_exists wr t w1
      in if ex then (None, wr, w2)
         else
           (let r = tile_record (fieldname wr) t path in
            case io_fault E (Write (c_path (file_obj wr)) r) of
              Some e \<Rightarrow> (Some e, wr, w2)
            | None \<Rightarrow>
                (None, wr\<lparr>new_entries := new_entries wr + 1\<rparr>,
                 append_records (c_path (file_obj wr)) [r] w2)))"

definition VectorFileWriter_close :: "env \<Rightarrow> writer \<Rightarrow> world \<Rightarrow> exn option \<times> world" where
  "VectorFileWriter_close E wr w0 =
     (let w1 = logger (Dbg_new_entries (new_entries wr) (VectorFileWriter_repr wr)) w0
      in (io_fault E (Close (c_path (file_obj wr))), w1))"

section \<open>The orchestrator\<close>

text \<open>
  The process object \<^verbatim>\<open>mp\<close>, as far as the module uses it: the reference system of the
  output pyramid, the tiles of the area at a zoom level
  (\<^verbatim>\<open>tiles_from_geom(area_at_zoom(zoom), zoom)\<close>), and the output accessor's path and
  existence check. Each call into these collaborators can raise.
\<close>

record mapchete =
  pyramid_crs :: string
  tiles_from_geom :: "int \<Rightarrow> exn + tile list"
  get_path :: "tile \<Rightarrow> exn + string"
  tiles_exist :: "tile \<Rightarrow> exn + bool"

record args =
  mp :: mapchete
  out_dir :: string
  a_zoom :: int
  geojson :: bool
  gpkg :: bool
  a_txt :: bool
  vrt :: bool
  a_fieldname :: string
  basepath :: "string option"
  for_gdal :: bool

text \<open>
  \<^verbatim>\<open>zoom_index_gen\<close> is a generator function. A generator object is created from the
  arguments without running any of the body; it is then suspended at a \<^verbatim>\<open>yield\<close>
  with the opened writers and the tiles still to come, or finished.
\<close>

datatype gen =
    Created args
  | Suspended args "writer list" "tile list"
  | Finished

datatype outcome =
    Yield tile
  | StopIteration
  | Raised exn
  | Returned

definition zoom_index_gen :: "args \<Rightarrow> gen" where
  "zoom_index_gen a = Created a"

text \<open>
  The first part of the \<^verbatim>\<open>try\<close> block: the writers of the enabled formats, appended
  to \<^verbatim>\<open>index_writers\<close> as they are constructed. The result holds the exception of a
  failed construction, if any, and the list as it stands then.
\<close>

definition open_writers :: "env \<Rightarrow> args \<Rightarrow> world \<Rightarrow> exn option \<times> writer list \<times> world" where
  "open_writers E a w0 =
     (case (if geojson a
            then (case VectorFileWriter_init E
                         (index_file_path (out_dir a) (a_zoom a) ''geojson'')
                         (pyramid_crs (mp a)) (a_fieldname a) ''GeoJSON'' w0 of
                    (Inl e, w1) \<Rightarrow> (Some e, [], w1)
                  | (Inr wr, w1) \<Rightarrow> (None, [wr], w1))
            else (None, [], w0)) of
        (Some e, ws, w1) \<Rightarrow> (Some e, ws, w1)
      | (None, ws, w1) \<Rightarrow>
          (if gpkg a
           then (case VectorFileWriter_init E
                        (index_file_path (out_dir a) (a_zoom a) ''gpkg'')
                        (pyramid_crs (mp a)) (a_fieldname a) ''GPKG'' w1 of
                   (Inl e, w2) \<Rightarrow> (Some e, ws, w2)
                 | (Inr wr, w2) \<Rightarrow> (None, ws @ [wr], w2))
           else (None, ws, w1)))"

text \<open>\<^verbatim>\<open>for index in index_writers: index.write(tile, tile_path)\<close>.\<close>

fun write_all ::
  "env \<Rightarrow> writer list \<Rightarrow> tile \<Rightarrow> string \<Rightarrow> world \<Rightarrow> exn option \<times> writer list \<times> world" where
  "write_all E [] t path w = (None, [], w)"
| "write_all E (wr # ws) t path w =
     (case VectorFileWriter_write E wr t path w of
        (Some e, wr', w') \<Rightarrow> (Some e, wr' # ws, w')
      | (None, wr', w') \<Rightarrow>
          (case write_all E ws t path w' of (r, ws', w'') \<Rightarrow> (r, wr' # ws', w'')))"

text \<open>The body of the loop for one tile, up to the \<^verbatim>\<open>yield\<close>.\<close>

definition process_tile ::
  "env \<Rightarrow> args \<Rightarrow> writer list \<Rightarrow> tile \<Rightarrow> world \<Rightarrow> exn option \<times> writer list \<times> world" where
  "process_tile E a ws t w0 =
     (let w1 = logger (Dbg_analyze t) w0 in
      case get_path (mp a) t of
        Inl e \<Rightarrow> (Some e, ws, w1)
      | Inr orig \<Rightarrow>
          (let p = tile_path (path_is_remote E) orig (basepath a) (for_gdal a) in
           case tiles_exist (mp a) t of
             Inl e \<Rightarrow> (Some e, ws, w1)
           | Inr ex \<Rightarrow> if ex then write_all E ws t p w1 else (None, ws, w1)))"

text \<open>
  The \<^verbatim>\<open>finally\<close> block. An \<^verbatim>\<open>Exception\<close> raised by a \<^verbatim>\<open>close\<close> is logged and the
  loop goes on; anything else leaves the block.
\<close>

fun finally_close :: "env \<Rightarrow> writer list \<Rightarrow> world \<Rightarrow> exn option \<times> world" where
  "finally_close E [] w = (None, w)"
| "finally_close E (wr # ws) w =
     (case VectorFileWriter_close E wr (logger (Dbg_close (VectorFileWriter_repr wr)) w) of
        (None, w') \<Rightarrow> finally_close E ws w'
      | (Some e, w') \<Rightarrow>
          if is_Exception e
          then finally_close E ws (logger (Err_not_closed e (VectorFileWriter_repr wr)) w')
          else (Some e, w'))"

text \<open>
  Leaving the \<^verbatim>\<open>try\<close> statement with outcome \<open>out\<close>: the \<^verbatim>\<open>finally\<close> block runs, and
  the outcome stands unless the block itself raised.
\<close>

definition finish :: "env \<Rightarrow> writer list \<Rightarrow> outcome \<Rightarrow> world \<Rightarrow> outcome \<times> gen \<times> world" where
  "finish E ws out w =
     (case finally_close E ws w of
        (Some e, w') \<Rightarrow> (Raised e, Finished, w')
      | (None, w') \<Rightarrow> (out, Finished, w'))"

text \<open>The \<^verbatim>\<open>for\<close> loop from its head to the next \<^verbatim>\<open>yield\<close>, or to its end.\<close>

fun loop :: "env \<Rightarrow> args \<Rightarrow> writer list \<Rightarrow> tile list \<Rightarrow> world \<Rightarrow> outcome \<times> gen \<times> world" where
  "loop E a ws [] w = finish E ws StopIteration w"
| "loop E a ws (t # ts) w =
     (case process_tile E a ws t w of
        (Some e, ws', w') \<Rightarrow> finish E ws' (Raised e) w'
      | (None, ws', w') \<Rightarrow> (Yield t, Suspended a ws' ts, w'))"

text \<open>
  \<^verbatim>\<open>next(g)\<close>. A new generator runs the body from its start: the two checks of the
  formats, then the \<^verbatim>\<open>try\<close> block. A suspended one goes on behind the \<^verbatim>\<open>yield\<close>.
\<close>

fun gen_next :: "env \<Rightarrow> gen \<times> world \<Rightarrow> outcome \<times> gen \<times> world" where
  "gen_next E (Created a, w) =
     (if \<not> (geojson a \<or> gpkg a \<or> vrt a)
      then (Raised (ValueError ''one of 'geojson', 'gpkg' or 'vrt' must be provided''),
            Finished, w)
      else if vrt a
      then (Raised (NotImplementedError ''writing VRTs is not yet enabled''), Finished, w)
      else
        (case open_writers E a w of
           (Some e, ws, w1) \<Rightarrow> finish E ws (Raised e) w1
         | (None, ws, w1) \<Rightarrow>
             (let w2 = logger (Dbg_writers (map VectorFileWriter_repr ws)) w1 in
              case tiles_from_geom (mp a) (a_zoom a) of
                Inl e \<Rightarrow> finish E ws (Raised e) w2
              | Inr ts \<Rightarrow> loop E a ws ts w2)))"
| "gen_next E (Suspended a ws ts, w) = loop E a ws ts w"
| "gen_next E (Finished, w) = (StopIteration, Finished, w)"

text \<open>
  \<^verbatim>\<open>g.throw(e)\<close> raises \<open>e\<close> at the \<^verbatim>\<open>yield\<close> the generator is suspended at (at its
  start, with no step of the body run, when it is new). \<^verbatim>\<open>g.close()\<close> does so with
  \<^verbatim>\<open>GeneratorExit\<close> and returns when that exception comes back; it does nothing on a
  generator that is new or finished. This is also what happens to a generator that its
  consumer abandons.
\<close>

fun gen_throw :: "env \<Rightarrow> exn \<Rightarrow> gen \<times> world \<Rightarrow> outcome \<times> gen \<times> world" where
  "gen_throw E e (Created a, w) = (Raised e, Finished, w)"
| "gen_throw E e (Suspended a ws ts, w) = finish E ws (Raised e) w"
| "gen_throw E e (Finished, w) = (Raised e, Finished, w)"

fun gen_close :: "env \<Rightarrow> gen \<times> world \<Rightarrow> outcome \<times> gen \<times> world" where
  "gen_close E (Created a, w) = (Returned, Finished, w)"
| "gen_close E (Suspended a ws ts, w) =
     (case finish E ws (Raised GeneratorExit) w of
        (Raised GeneratorExit, g, w') \<Rightarrow> (Returned, g, w')
      | r \<Rightarrow> r)"
| "gen_close E (Finished, w) = (Returned, Finished, w)"

text \<open>A consumer: a sequence of operations on the generator, with their outcomes.\<close>

datatype gen_op = Next | Throw exn | Close_gen

fun gen_step :: "env \<Rightarrow> gen_op \<Rightarrow> gen \<times> world \<Rightarrow> outcome \<times> gen \<times> world" where
  "gen_step E Next s = gen_next E s"
| "gen_step E (Throw e) s = gen_throw E e s"
| "gen_step E Close_gen s = gen_close E s"

fun drive :: "env \<Rightarrow> gen_op list \<Rightarrow> gen \<times> world \<Rightarrow> outcome list \<times> gen \<times> world" where
  "drive E [] s = ([], s)"
| "drive E (x # xs) s =
     (case gen_step E x s of
        (out, s') \<Rightarrow> (case drive E xs s' of (outs, s'') \<Rightarrow> (out # outs, s'')))"

section \<open>Observations\<close>

text \<open>
  The calls one writer receives during a run, in order; an exception ends the run.
\<close>

fun write_seq ::
  "env \<Rightarrow> writer \<Rightarrow> (tile \<times> string) list \<Rightarrow> world \<Rightarrow> exn option \<times> writer \<times> world" where
  "write_seq E wr [] w = (None, wr, w)"
| "write_seq E wr ((t, p) # cs) w =
     (case VectorFileWriter_write E wr t p w of
        (Some e, wr', w') \<Rightarrow> (Some e, wr', w')
      | (None, wr', w') \<Rightarrow> write_seq E wr' cs w')"

text \<open>The features stored at a path; none when there is no file.\<close>

definition entries :: "world \<Rightarrow> string \<Rightarrow> feature list" where
  "entries w p = (case files w p of None \<Rightarrow> [] | Some fs \<Rightarrow> fs)"

text \<open>
  What the log tells: the calls of \<^verbatim>\<open>write\<close>, the attempts to close a writer made by
  the \<^verbatim>\<open>finally\<close> block, and the failures to close it reported there. A call of
  \<^verbatim>\<open>write\<close> logs its path and the writer, and the check of the snapshot it makes next
  logs its tile: the two messages together give the tile, the path and the writer of
  the call.
\<close>

fun offers :: "log_event list \<Rightarrow> (tile \<times> string \<times> string) list" where
  "offers (Dbg_write p r # Dbg_exists t b # l) = (t, p, r) # offers l"
| "offers (ev # l) = offers l"
| "offers [] = []"

fun close_of :: "log_event \<Rightarrow> string list" where
  "close_of (Dbg_close r) = [r]"
| "close_of _ = []"

definition close_attempts :: "log_event list \<Rightarrow> string list" where
  "close_attempts l = concat (map close_of l)"

fun close_error_of :: "log_event \<Rightarrow> (exn \<times> string) list" where
  "close_error_of (Err_not_closed e r) = [(e, r)]"
| "close_error_of _ = []"

definition close_errors :: "log_event list \<Rightarrow> (exn \<times> string) list" where
  "close_errors l = concat (map close_error_of l)"

text \<open>The writers a generator holds open: those of its suspended frame.\<close>

fun gen_writers :: "gen \<Rightarrow> string list" where
  "gen_writers (Suspended a ws ts) = map VectorFileWriter_repr ws"
| "gen_writers _ = []"

text \<open>The failures the file layer has in store for the closing of some writers.\<close>

fun failed_closes :: "env \<Rightarrow> writer list \<Rightarrow> (exn \<times> string) list" where
  "failed_closes E [] = []"
| "failed_closes E (wr # ws) =
     (case io_fault E (Close (c_path (file_obj wr))) of
        None \<Rightarrow> failed_closes E ws
      | Some e \<Rightarrow> (e, VectorFileWriter_repr wr) # failed_closes E ws)"

text \<open>
  The same arguments over an area that holds only the tiles satisfying \<open>P\<close>: what the
  run over the whole area is compared with.
\<close>

definition restrict_area :: "(tile \<Rightarrow> bool) \<Rightarrow> args \<Rightarrow> args" where
  "restrict_area P a =
     a\<lparr>mp := (mp a)\<lparr>tiles_from_geom :=
        (\<lambda>z. case tiles_from_geom (mp a) z of Inl e \<Rightarrow> Inl e | Inr ts \<Rightarrow> Inr (filter P ts))\<rparr>\<rparr>"

section \<open>An example run\<close>

text \<open>
  An area of four tiles at zoom 5, three of which have an output; a file layer that never
  fails and one whose every \<^verbatim>\<open>close\<close> fails; an index left by an earlier run.
\<close>

definition ex_tile :: "int \<Rightarrow> int \<Rightarrow> tile" where
  "ex_tile r c =
     \<lparr>zoom = 5, row = r, col = c,
      bbox = [(c, r), (c + 1, r), (c + 1, r + 1), (c, r + 1), (c, r)],
      tile_crs = ''EPSG:4326''\<rparr>"

definition ex_remote :: "string \<Rightarrow> bool" where
  "ex_remote p = (take 7 p = ''http://'' \<or> take 8 p = ''https://'')"

definition ex_mp :: mapchete where
  "ex_mp =
     \<lparr>pyramid_crs = ''EPSG:4326'',
      tiles_from_geom = (\<lambda>z. Inr [ex_tile 0 0, ex_tile 0 1, ex_tile 1 0, ex_tile 1 1]),
      get_path = (\<lambda>t. Inr (''/data/out/'' @ str_int (zoom t) @ ''/'' @ str_int (row t)
                              @ ''/'' @ str_int (col t) @ ''.tif'')),
      tiles_exist = (\<lambda>t. Inr (\<not> (row t = 1 \<and> col t = 1)))\<rparr>"

definition ex_env :: env where
  "ex_env = \<lparr>path_is_remote = ex_remote, io_fault = (\<lambda>x. None)\<rparr>"


definition ex_args :: args where
  "ex_args =
     \<lparr>mp = ex_mp, out_dir = ''/data/out'', a_zoom = 5, geojson = True, gpkg = False,
      a_txt = False, vrt = False, a_fieldname = ''location'', basepath = None,
      for_gdal = True\<rparr>"

definition ex_world :: world where
  "ex_world = \<lparr>files = Map.empty, log = []\<rparr>"

definition ex_old :: feature where
  "ex_old =
     \<lparr>geometry = mapping (bbox (ex_tile 0 0)),
      properties =
        [(''tile_id'', PStr ''(5, 0, 0)''), (''zoom'', PInt 5), (''row'', PInt 0),
         (''col'', PInt 0), (''location'', PStr ''/old/out/5/0/0.tif'')]\<rparr>"

definition ex_world_old :: world where
  "ex_world_old = \<lparr>files = [''/data/out/5.geojson'' \<mapsto> [ex_old]], log = []\<rparr>"

definition ex_index :: string where
  "ex_index = ''/data/out/5.geojson''"

definition ex_writer :: "string \<Rightarrow> string \<Rightarrow> (pyval \<times> feature) list \<Rightarrow> writer" where
  "ex_writer crs fname ex =
     \<lparr>w_path = ''/data/out/5.geojson'', w_driver = ''GeoJSON'', existing = ex,
      new_entries = 0, fieldname = fname,
      file_obj =
        \<lparr>c_path = ''/data/out/5.geojson'', c_driver = ''GeoJSON'', c_crs = crs,
         c_schema = spatial_schema
           \<lparr>s_properties := AList.update fname ''str:254'' (s_properties spatial_schema)\<rparr>\<rparr>\<rparr>"

definition ex_calls :: "(tile \<times> string) list" where
  "ex_calls = [(ex_tile 0 0, ''/data/out/5/0/0.tif''), (ex_tile 0 1, ''/data/out/5/0/1.tif'')]"

text \<open>
  One run over one index file: the writer is constructed, receives its calls and is
  closed; the result is the world the run leaves behind.
\<close>

definition index_run ::
  "env \<Rightarrow> string \<Rightarrow> string \<Rightarrow> string \<Rightarrow> string \<Rightarrow> (tile \<times> string) list \<Rightarrow> world \<Rightarrow> world" where
  "index_run E p crs fname drv calls w =
     (case VectorFileWriter_init E p crs fname drv w of
        (Inl e, w1) \<Rightarrow> w1
      | (Inr wr, w1) \<Rightarrow>
          (case write_seq E wr calls w1 of
             (r, wr', w') \<Rightarrow> snd (VectorFileWriter_close E wr' w')))"



section \<open>Basic facts\<close>

lemma logger_simps [simp]:
  "log (logger ev w) = log w @ [ev]" "files (logger ev w) = files w"
  by (simp_all add: logger_def)

lemma entries_logger [simp]: "entries (logger ev w) p = entries w p"
  by (simp add: entries_def)

lemma append_records_simps [simp]:
  "log (append_records p fs w) = log w"
  "files (append_records p fs w) = (files w)(p \<mapsto> entries w p @ fs)"
  by (simp_all add: append_records_def entries_def)

lemma entries_append_records [simp]:
  "entries (append_records p fs w) q = (if q = p then entries w p @ fs else entries w q)"
  by (simp add: entries_def)

lemma str_split_nonempty: "str_split c s \<noteq> []"
  by (induction s) (auto split: list.splits)

lemma str_split_append: "str_split c (a @ c # b) = str_split c a @ str_split c b"
proof (induction a)
  case Nil
  show ?case by simp
next
  case (Cons x a)
  then show ?case
    by (cases "str_split c a") (auto simp: str_split_nonempty)
qed

lemma str_split_no_sep: "c \<notin> set s \<Longrightarrow> str_split c s = [s]"
  by (induction s) auto

lemma last_three_suffix: "last_three (xs @ [a, b, c]) = [a, b, c]"
  by (simp add: last_three_def)

lemma tail_canonical:
  assumes "CHR ''/'' \<notin> set z" "CHR ''/'' \<notin> set r" "CHR ''/'' \<notin> set cf"
    and "orig = z @ ''/'' @ r @ ''/'' @ cf \<or> orig = pre @ ''/'' @ z @ ''/'' @ r @ ''/'' @ cf"
  shows "str_join ''/'' (last_three (str_split CHR ''/'' orig)) = z @ ''/'' @ r @ ''/'' @ cf"
proof -
  have three: "str_split CHR ''/'' (z @ ''/'' @ r @ ''/'' @ cf) = [z, r, cf]"
    using assms(1-3) by (simp add: str_split_append str_split_no_sep)
  from assms(4) have "last_three (str_split CHR ''/'' orig) = [z, r, cf]"
  proof
    assume "orig = z @ ''/'' @ r @ ''/'' @ cf"
    then show ?thesis using three last_three_suffix[of "[]"] by simp
  next
    assume "orig = pre @ ''/'' @ z @ ''/'' @ r @ ''/'' @ cf"
    then have "str_split CHR ''/'' orig = str_split CHR ''/'' pre @ [z, r, cf]"
      using three by (simp add: str_split_append)
    then show ?thesis by (simp add: last_three_suffix)
  qed
  then show ?thesis by simp
qed

lemma os_path_join_relative:
  "t \<noteq> [] \<Longrightarrow> hd t \<noteq> CHR ''/'' \<Longrightarrow> b \<noteq> [] \<Longrightarrow>
   os_path_join b t = (if last b = CHR ''/'' then b @ t else b @ ''/'' @ t)"
  by (simp add: os_path_join_def)

lemma write_existing:
  "PStr (str_index (tile_id t)) \<in> fst ` set (existing wr) \<Longrightarrow>
   VectorFileWriter_write E wr t p w =
     (None, wr, logger (Dbg_exists t True) (logger (Dbg_write p (VectorFileWriter_repr wr)) w))"
  by (simp add: VectorFileWriter_write_def VectorFileWriter_entry_exists_def)

lemma write_new:
  "PStr (str_index (tile_id t)) \<notin> fst ` set (existing wr) \<Longrightarrow>
   io_fault E (Write (c_path (file_obj wr)) (tile_record (fieldname wr) t p)) = None \<Longrightarrow>
   VectorFileWriter_write E wr t p w =
     (None, wr\<lparr>new_entries := new_entries wr + 1\<rparr>,
      append_records (c_path (file_obj wr)) [tile_record (fieldname wr) t p]
        (logger (Dbg_exists t False) (logger (Dbg_write p (VectorFileWriter_repr wr)) w)))"
  by (simp add: VectorFileWriter_write_def VectorFileWriter_entry_exists_def)

lemma write_keeps:
  "VectorFileWriter_write E wr t p w = (r, wr', w') \<Longrightarrow>
   existing wr' = existing wr \<and> file_obj wr' = file_obj wr \<and> fieldname wr' = fieldname wr
   \<and> w_path wr' = w_path wr \<and> w_driver wr' = w_driver wr
   \<and> (\<exists>fs. entries w' (c_path (file_obj wr)) = entries w (c_path (file_obj wr)) @ fs)"
  by (auto simp: VectorFileWriter_write_def VectorFileWriter_entry_exists_def Let_def
      split: if_splits option.splits)

lemma update_fresh: "k \<notin> fst ` set al \<Longrightarrow> AList.update k v al = al @ [(k, v)]"
  by (induction al) auto

lemma set_update_subset: "set (AList.update k v al) \<subseteq> insert (k, v) (set al)"
  by (induction al) auto

lemma existing_of_fresh:
  "map feature_tile_id fs = map Some ks \<Longrightarrow> distinct ks \<Longrightarrow> set ks \<inter> fst ` set acc = {} \<Longrightarrow>
   existing_of acc fs = Inr (acc @ zip ks fs)"
proof (induction fs arbitrary: ks acc)
  case Nil
  then show ?case by simp
next
  case (Cons f fs)
  then obtain k ks' where ks: "ks = k # ks'" by (cases ks) auto
  with Cons.prems have f: "feature_tile_id f = Some k" and fs: "map feature_tile_id fs = map Some ks'"
    and d: "distinct ks'" and k: "k \<notin> fst ` set acc" "k \<notin> set ks'"
    and disj: "set ks' \<inter> fst ` set acc = {}"
    by auto
  have "set ks' \<inter> fst ` set (acc @ [(k, f)]) = {}" using disj k by auto
  from Cons.IH[OF fs d this] show ?case
    using f k ks by (simp add: update_fresh)
qed

lemma existing_of_inv:
  "existing_of acc fs = Inr ex \<Longrightarrow> distinct (map fst acc) \<Longrightarrow>
   (\<forall>(k, f)\<in>set acc. feature_tile_id f = Some k \<and> f \<in> S) \<Longrightarrow> set fs \<subseteq> S \<Longrightarrow>
   distinct (map fst ex) \<and> (\<forall>(k, f)\<in>set ex. feature_tile_id f = Some k \<and> f \<in> S)"
proof (induction fs arbitrary: acc)
  case Nil
  then show ?case by simp
next
  case (Cons f fs)
  from Cons.prems(1) obtain k where k: "feature_tile_id f = Some k"
    and rest: "existing_of (AList.update k f acc) fs = Inr ex"
    by (auto split: option.splits)
  have d: "distinct (map fst (AList.update k f acc))"
    using Cons.prems(2) by (simp add: distinct_update)
  have i: "\<forall>(k', f')\<in>set (AList.update k f acc). feature_tile_id f' = Some k' \<and> f' \<in> S"
    using set_update_subset[of k f acc] Cons.prems(3,4) k by auto
  from Cons.IH[OF rest d i] Cons.prems(4) show ?case by simp
qed

lemma find_snapshot:
  "distinct (map fst ex) \<Longrightarrow> (\<forall>(k, f)\<in>set ex. feature_tile_id f = Some k) \<Longrightarrow> (k, f) \<in> set ex \<Longrightarrow>
   List.find (\<lambda>g. feature_tile_id g = Some k) (map snd ex @ rest) = Some f"
proof (induction ex)
  case Nil
  then show ?case by simp
next
  case (Cons x ex)
  obtain k' f' where x: "x = (k', f')" by (cases x)
  show ?case
  proof (cases "k' = k")
    case True
    with Cons.prems x have "f' = f" by (auto simp: image_iff)
    with Cons.prems x True show ?thesis by auto
  next
    case False
    with Cons x show ?thesis by auto
  qed
qed

lemma init_ok:
  "VectorFileWriter_init E p crs fname drv w = (Inr wr, w1) \<Longrightarrow>
   c_path (file_obj wr) = p \<and> w_path wr = p \<and> w_driver wr = drv \<and> fieldname wr = fname
   \<and> new_entries wr = 0 \<and> c_crs (file_obj wr) = crs
   \<and> entries w1 p = map snd (existing wr)
   \<and> existing_of [] (entries w p) = Inr (existing wr)"
  by (auto simp: VectorFileWriter_init_def load_existing_def Let_def entries_def
      split: if_splits option.splits sum.splits prod.splits)

lemma write_seq_keeps:
  "write_seq E wr calls w = (r, wr', w') \<Longrightarrow>
   existing wr' = existing wr \<and> file_obj wr' = file_obj wr \<and> fieldname wr' = fieldname wr
   \<and> w_path wr' = w_path wr \<and> w_driver wr' = w_driver wr
   \<and> (\<exists>fs. entries w' (c_path (file_obj wr)) = entries w (c_path (file_obj wr)) @ fs)"
proof (induction calls arbitrary: wr w)
  case Nil
  then show ?case by simp
next
  case (Cons c calls)
  obtain t q where c: "c = (t, q)" by (cases c)
  obtain r1 wr1 w1 where s: "VectorFileWriter_write E wr t q w = (r1, wr1, w1)"
    by (cases "VectorFileWriter_write E wr t q w") auto
  note k = write_keeps[OF s]
  show ?case
  proof (cases r1)
    case None
    with Cons.prems c s have "write_seq E wr1 calls w1 = (r, wr', w')" by simp
    from Cons.IH[OF this] k show ?thesis by auto
  next
    case (Some e)
    with Cons.prems c s have "wr' = wr1" "w' = w1" by auto
    with k show ?thesis by auto
  qed
qed

lemma tile_record_plain:
  "fname \<notin> {''tile_id'', ''zoom'', ''row'', ''col''} \<Longrightarrow>
   properties (tile_record fname t q) =
     [(''tile_id'', PStr (str_index (tile_id t))), (''zoom'', PStr (str_int (zoom t))),
      (''row'', PStr (str_int (row t))), (''col'', PStr (str_int (col t))), (fname, PStr q)]"
  by (auto simp: tile_record_def)

lemma tile_record_tile_id:
  "fname \<noteq> ''tile_id'' \<Longrightarrow>
   feature_tile_id (tile_record fname t q) = Some (PStr (str_index (tile_id t)))"
  by (simp add: tile_record_def feature_tile_id_def update_conv')

lemma init_explicit:
  assumes nofault: "\<forall>x. io_fault E x = None"
    and drv: "drv = ''GeoJSON'' \<or> drv = ''GPKG''"
    and ex: "existing_of [] (entries w p) = Inr ex"
  shows "VectorFileWriter_init E p crs fname drv w =
     (Inr \<lparr>w_path = p, w_driver = drv, existing = ex, new_entries = 0, fieldname = fname,
           file_obj = \<lparr>c_path = p, c_driver = drv, c_crs = crs,
                       c_schema = spatial_schema
                         \<lparr>s_properties := AList.update fname ''str:254'' (s_properties spatial_schema)\<rparr>\<rparr>\<rparr>,
      append_records p (map snd ex)
        ((logger (Dbg_initialize drv) w)\<lparr>files := (files w)(p \<mapsto> [])\<rparr>))"
proof (cases "files w p")
  case None
  with ex have "ex = []" by (simp add: entries_def)
  with None nofault drv show ?thesis
    by (auto simp: VectorFileWriter_init_def Let_def)
next
  case (Some src)
  with ex have "existing_of [] src = Inr ex" by (simp add: entries_def)
  with Some nofault drv show ?thesis
    by (auto simp: VectorFileWriter_init_def load_existing_def Let_def)
qed

lemma init_success:
  assumes nofault: "\<forall>x. io_fault E x = None"
    and drv: "drv = ''GeoJSON'' \<or> drv = ''GPKG''"
    and ex: "existing_of [] (entries w p) = Inr ex"
  shows "\<exists>wr w1. VectorFileWriter_init E p crs fname drv w = (Inr wr, w1)
     \<and> existing wr = ex \<and> entries w1 p = map snd ex"
  using init_explicit[OF assms, of crs fname] by (simp add: entries_def)

lemma write_seq_all_new:
  assumes nofault: "\<forall>x. io_fault E x = None"
  shows "\<forall>c\<in>set calls. PStr (str_index (tile_id (fst c))) \<notin> fst ` set (existing wr) \<Longrightarrow>
   \<exists>w'. write_seq E wr calls w = (None, wr\<lparr>new_entries := new_entries wr + length calls\<rparr>, w')
     \<and> entries w' (c_path (file_obj wr)) =
         entries w (c_path (file_obj wr)) @ map (\<lambda>c. tile_record (fieldname wr) (fst c) (snd c)) calls"
proof (induction calls arbitrary: wr w)
  case Nil
  then show ?case by simp
next
  case (Cons c calls)
  obtain t q where c: "c = (t, q)" by (cases c)
  from Cons.prems c have new: "PStr (str_index (tile_id t)) \<notin> fst ` set (existing wr)" by simp
  let ?wr = "wr\<lparr>new_entries := new_entries wr + 1\<rparr>"
  let ?w = "append_records (c_path (file_obj wr)) [tile_record (fieldname wr) t q]
        (logger (Dbg_exists t False) (logger (Dbg_write q (VectorFileWriter_repr wr)) w))"
  have step: "VectorFileWriter_write E wr t q w = (None, ?wr, ?w)"
    using write_new[OF new, of E q w] nofault by simp
  have "\<forall>c\<in>set calls. PStr (str_index (tile_id (fst c))) \<notin> fst ` set (existing ?wr)"
    using Cons.prems by simp
  from Cons.IH[OF this, of ?w] obtain w' where
    r: "write_seq E ?wr calls ?w = (None, ?wr\<lparr>new_entries := new_entries ?wr + length calls\<rparr>, w')"
    and e: "entries w' (c_path (file_obj ?wr)) =
         entries ?w (c_path (file_obj ?wr)) @ map (\<lambda>c. tile_record (fieldname ?wr) (fst c) (snd c)) calls"
    by blast
  from step r e c show ?case by simp
qed

lemma write_seq_all_existing:
  "\<forall>c\<in>set calls. PStr (str_index (tile_id (fst c))) \<in> fst ` set (existing wr) \<Longrightarrow>
   \<exists>w'. write_seq E wr calls w = (None, wr, w') \<and> files w' = files w"
proof (induction calls arbitrary: w)
  case Nil
  then show ?case by simp
next
  case (Cons c calls)
  obtain t q where c: "c = (t, q)" by (cases c)
  from Cons.prems c have old: "PStr (str_index (tile_id t)) \<in> fst ` set (existing wr)" by simp
  let ?w = "logger (Dbg_exists t True) (logger (Dbg_write q (VectorFileWriter_repr wr)) w)"
  have "\<forall>c\<in>set calls. PStr (str_index (tile_id (fst c))) \<in> fst ` set (existing wr)"
    using Cons.prems by simp
  from Cons.IH[OF this, of ?w] write_existing[OF old, of E q w] c show ?case by auto
qed

lemma existing_of_keys:
  "existing_of acc fs = Inr ex \<Longrightarrow>
   fst ` set ex = fst ` set acc \<union> {k. Some k \<in> feature_tile_id ` set fs}"
proof (induction fs arbitrary: acc)
  case Nil
  then show ?case by simp
next
  case (Cons f fs)
  from Cons.prems obtain k where k: "feature_tile_id f = Some k"
    and rest: "existing_of (AList.update k f acc) fs = Inr ex"
    by (auto split: option.splits)
  from Cons.IH[OF rest] k show ?case by (auto simp: dom_update)
qed

lemma write_cases:
  "VectorFileWriter_write E wr t q w = (r, wr', w') \<Longrightarrow>
   entries w' (c_path (file_obj wr)) = entries w (c_path (file_obj wr))
   \<or> (PStr (str_index (tile_id t)) \<notin> fst ` set (existing wr)
      \<and> entries w' (c_path (file_obj wr)) =
          entries w (c_path (file_obj wr)) @ [tile_record (fieldname wr) t q])"
  by (auto simp: VectorFileWriter_write_def VectorFileWriter_entry_exists_def Let_def
      split: if_splits option.splits)

lemma write_seq_unique:
  "write_seq E wr calls w = (r, wr', w') \<Longrightarrow> fieldname wr \<noteq> ''tile_id'' \<Longrightarrow>
   distinct (map (\<lambda>c. str_index (tile_id (fst c))) calls) \<Longrightarrow>
   distinct (map feature_tile_id (entries w (c_path (file_obj wr)))) \<Longrightarrow>
   \<forall>c\<in>set calls. PStr (str_index (tile_id (fst c))) \<in> fst ` set (existing wr)
      \<or> Some (PStr (str_index (tile_id (fst c))))
           \<notin> feature_tile_id ` set (entries w (c_path (file_obj wr))) \<Longrightarrow>
   distinct (map feature_tile_id (entries w' (c_path (file_obj wr))))"
proof (induction calls arbitrary: wr w)
  case Nil
  then show ?case by simp
next
  case (Cons c calls)
  obtain t q where c: "c = (t, q)" by (cases c)
  let ?p = "c_path (file_obj wr)"
  obtain r1 wr1 w1 where s: "VectorFileWriter_write E wr t q w = (r1, wr1, w1)"
    by (cases "VectorFileWriter_write E wr t q w") auto
  note k = write_keeps[OF s]
  from k have k1: "c_path (file_obj wr1) = ?p" "fieldname wr1 = fieldname wr"
    "existing wr1 = existing wr" by simp_all
  from Cons.prems(3) c have dc: "distinct (map (\<lambda>c. str_index (tile_id (fst c))) calls)"
    and ni: "str_index (tile_id t) \<notin> (\<lambda>c. str_index (tile_id (fst c))) ` set calls"
    by auto
  have nt: "\<forall>c\<in>set calls. str_index (tile_id (fst c)) \<noteq> str_index (tile_id t)"
  proof
    fix c'
    assume "c' \<in> set calls"
    then have "str_index (tile_id (fst c')) \<in> (\<lambda>c. str_index (tile_id (fst c))) ` set calls"
      by (rule imageI)
    with ni show "str_index (tile_id (fst c')) \<noteq> str_index (tile_id t)" by metis
  qed
  have inv: "distinct (map feature_tile_id (entries w1 ?p))
     \<and> (\<forall>c\<in>set calls. PStr (str_index (tile_id (fst c))) \<in> fst ` set (existing wr)
          \<or> Some (PStr (str_index (tile_id (fst c)))) \<notin> feature_tile_id ` set (entries w1 ?p))"
    using write_cases[OF s]
  proof
    assume "entries w1 ?p = entries w ?p"
    with Cons.prems(4,5) show ?thesis by simp
  next
    assume a: "PStr (str_index (tile_id t)) \<notin> fst ` set (existing wr)
      \<and> entries w1 ?p = entries w ?p @ [tile_record (fieldname wr) t q]"
    have id: "feature_tile_id (tile_record (fieldname wr) t q) = Some (PStr (str_index (tile_id t)))"
      by (rule tile_record_tile_id[OF Cons.prems(2)])
    from a Cons.prems(5) c
    have fresh: "Some (PStr (str_index (tile_id t))) \<notin> feature_tile_id ` set (entries w ?p)"
      by auto
    have d: "distinct (map feature_tile_id (entries w1 ?p))"
      using a Cons.prems(4) fresh id by simp
    have "\<forall>c\<in>set calls. PStr (str_index (tile_id (fst c))) \<in> fst ` set (existing wr)
          \<or> Some (PStr (str_index (tile_id (fst c)))) \<notin> feature_tile_id ` set (entries w1 ?p)"
    proof
      fix c'
      assume m: "c' \<in> set calls"
      with Cons.prems(5) have "PStr (str_index (tile_id (fst c'))) \<in> fst ` set (existing wr)
          \<or> Some (PStr (str_index (tile_id (fst c')))) \<notin> feature_tile_id ` set (entries w ?p)"
        by simp
      moreover from m nt have "str_index (tile_id (fst c')) \<noteq> str_index (tile_id t)" by blast
      ultimately show "PStr (str_index (tile_id (fst c'))) \<in> fst ` set (existing wr)
          \<or> Some (PStr (str_index (tile_id (fst c')))) \<notin> feature_tile_id ` set (entries w1 ?p)"
        using a id by auto
    qed
    with d show ?thesis by blast
  qed
  show ?case
  proof (cases r1)
    case (Some e)
    with Cons.prems(1) c s have "w' = w1" by simp
    with inv show ?thesis by simp
  next
    case None
    with Cons.prems(1) c s have run: "write_seq E wr1 calls w1 = (r, wr', w')" by simp
    from Cons.IH[OF run] Cons.prems(2) dc inv k1 show ?thesis by simp
  qed
qed

lemma ex_strings:
  "str_index (tile_id (ex_tile 0 0)) = ''(5, 0, 0)''"
  "str_index (tile_id (ex_tile 0 1)) = ''(5, 0, 1)''"
  "str_index (tile_id (ex_tile 1 0)) = ''(5, 1, 0)''"
  "str_index (tile_id (ex_tile 1 1)) = ''(5, 1, 1)''"
  "str_int 5 = ''5''" "str_int 0 = ''0''" "str_int 1 = ''1''"
  by (simp_all add: tile_id_def ex_tile_def str_int_def str_nat.simps digit_char_def)

lemma ex_init_old:
  "VectorFileWriter_init ex_env ex_index ''EPSG:4326'' ''location'' ''GeoJSON'' ex_world_old =
     (Inr (ex_writer ''EPSG:4326'' ''location'' [(PStr ''(5, 0, 0)'', ex_old)]),
      snd (VectorFileWriter_init ex_env ex_index ''EPSG:4326'' ''location'' ''GeoJSON'' ex_world_old))"
  by (simp add: prod_eq_iff VectorFileWriter_init_def load_existing_def ex_env_def
      ex_world_old_def ex_index_def ex_writer_def Let_def feature_tile_id_def ex_old_def)

section \<open>Path resolution\<close>

text \<open>
  Claim C9. Path resolution is a function of its arguments alone. Without a base path
  (\<^verbatim>\<open>None\<close>, or the empty string, which Python takes for false) the canonical path is
  kept. With a base path \<open>b\<close> and a canonical path that ends in the three segments
  \<open>z/r/cf\<close> (zoom, row, column with extension), everything before these segments is
  replaced by \<open>b\<close>, joined to them by one slash. The result then gets the prefix
  \<^verbatim>\<open>/vsicurl/\<close> exactly when GDAL addressing is asked for and the result is a remote
  path; otherwise it is returned as it is.
\<close>

theorem tile_path_resolution:
  "(bp = None \<or> bp = Some [] \<longrightarrow>
      tile_path remote orig bp g = (if g \<and> remote orig then ''/vsicurl/'' @ orig else orig))
   \<and> (bp = Some b \<and> b \<noteq> [] \<and> z \<noteq> [] \<and>
      CHR ''/'' \<notin> set z \<and> CHR ''/'' \<notin> set r \<and> CHR ''/'' \<notin> set cf \<and>
      (orig = z @ ''/'' @ r @ ''/'' @ cf \<or> orig = pre @ ''/'' @ z @ ''/'' @ r @ ''/'' @ cf) \<longrightarrow>
      tile_path remote orig bp g =
        (let p = (if last b = CHR ''/'' then b else b @ ''/'') @ z @ ''/'' @ r @ ''/'' @ cf
         in if g \<and> remote p then ''/vsicurl/'' @ p else p))"
proof (intro conjI impI)
  assume "bp = None \<or> bp = Some []"
  then show "tile_path remote orig bp g = (if g \<and> remote orig then ''/vsicurl/'' @ orig else orig)"
    by (auto simp: tile_path_def)
next
  assume a: "bp = Some b \<and> b \<noteq> [] \<and> z \<noteq> [] \<and>
      CHR ''/'' \<notin> set z \<and> CHR ''/'' \<notin> set r \<and> CHR ''/'' \<notin> set cf \<and>
      (orig = z @ ''/'' @ r @ ''/'' @ cf \<or> orig = pre @ ''/'' @ z @ ''/'' @ r @ ''/'' @ cf)"
  then have t: "str_join ''/'' (last_three (str_split CHR ''/'' orig)) = z @ ''/'' @ r @ ''/'' @ cf"
    using tail_canonical by blast
  from a have "hd (z @ ''/'' @ r @ ''/'' @ cf) \<noteq> CHR ''/''"
    by (cases z) auto
  then have "os_path_join b (z @ ''/'' @ r @ ''/'' @ cf) =
       (if last b = CHR ''/'' then b else b @ ''/'') @ z @ ''/'' @ r @ ''/'' @ cf"
    using a os_path_join_relative[of "z @ ''/'' @ r @ ''/'' @ cf" b] by simp
  with a t show "tile_path remote orig bp g =
        (let p = (if last b = CHR ''/'' then b else b @ ''/'') @ z @ ''/'' @ r @ ''/'' @ cf
         in if g \<and> remote p then ''/vsicurl/'' @ p else p)"
    by (simp add: tile_path_def Let_def)
qed

theorem tile_path_resolution_witness:
  "tile_path ex_remote ''/data/out/5/3/2.tif'' (Some ''https://host/idx'') True
     = ''/vsicurl/https://host/idx/5/3/2.tif''
   \<and> tile_path ex_remote ''/data/out/5/3/2.tif'' (Some ''https://host/idx'') False
     = ''https://host/idx/5/3/2.tif''
   \<and> tile_path ex_remote ''/data/out/5/3/2.tif'' (Some ''/mnt/idx/'') True = ''/mnt/idx/5/3/2.tif''
   \<and> tile_path ex_remote ''http://host/out/5/3/2.tif'' None True
     = ''/vsicurl/http://host/out/5/3/2.tif''
   \<and> tile_path ex_remote ''/data/out/5/3/2.tif'' (Some []) True = ''/data/out/5/3/2.tif''"
  using tile_path_resolution[of "Some ''https://host/idx''" ex_remote "''/data/out/5/3/2.tif''" True
          "''https://host/idx''" "''5''" "''3''" "''2.tif''" "''/data/out''"]
        tile_path_resolution[of "Some ''https://host/idx''" ex_remote "''/data/out/5/3/2.tif''" False
          "''https://host/idx''" "''5''" "''3''" "''2.tif''" "''/data/out''"]
        tile_path_resolution[of "Some ''/mnt/idx/''" ex_remote "''/data/out/5/3/2.tif''" True
          "''/mnt/idx/''" "''5''" "''3''" "''2.tif''" "''/data/out''"]
        tile_path_resolution[of None ex_remote "''http://host/out/5/3/2.tif''" True]
        tile_path_resolution[of "Some []" ex_remote "''/data/out/5/3/2.tif''" True]
  by (simp add: ex_remote_def)

section \<open>Rejected configurations\<close>

text \<open>
  Claim C7. When none of the formats geojson, gpkg and vrt is requested, whatever the
  text-listing flag says, the first pull fails with the \<^verbatim>\<open>ValueError\<close> of the
  configuration check; the generator is finished, no writer was constructed and the
  world (files and log) is exactly as before.
\<close>

theorem no_format_is_a_configuration_error:
  "\<not> geojson a \<Longrightarrow> \<not> gpkg a \<Longrightarrow> \<not> vrt a \<Longrightarrow>
   gen_next E (zoom_index_gen a, w) =
     (Raised (ValueError ''one of 'geojson', 'gpkg' or 'vrt' must be provided''), Finished, w)"
  by (simp add: zoom_index_gen_def)

theorem no_format_is_a_configuration_error_witness:
  "\<not> geojson (ex_args\<lparr>geojson := False, a_txt := True\<rparr>)
   \<and> \<not> gpkg (ex_args\<lparr>geojson := False, a_txt := True\<rparr>)
   \<and> \<not> vrt (ex_args\<lparr>geojson := False, a_txt := True\<rparr>)
   \<and> gen_next ex_env (zoom_index_gen (ex_args\<lparr>geojson := False, a_txt := True\<rparr>), ex_world_old) =
       (Raised (ValueError ''one of 'geojson', 'gpkg' or 'vrt' must be provided''),
        Finished, ex_world_old)"
  using no_format_is_a_configuration_error
          [of "ex_args\<lparr>geojson := False, a_txt := True\<rparr>" ex_env ex_world_old]
  by (simp add: ex_args_def)

text \<open>
  Claim C8. When the vrt format is requested, alone or together with geojson or gpkg,
  the first pull fails with \<^verbatim>\<open>NotImplementedError\<close>; the generator is finished, no
  writer was constructed and the world (files and log) is exactly as before, so no index
  file of any format has been created.
\<close>

theorem vrt_is_not_implemented:
  "vrt a \<Longrightarrow>
   gen_next E (zoom_index_gen a, w) =
     (Raised (NotImplementedError ''writing VRTs is not yet enabled''), Finished, w)"
  by (simp add: zoom_index_gen_def)

theorem vrt_is_not_implemented_witness:
  "vrt (ex_args\<lparr>vrt := True, gpkg := True\<rparr>)
   \<and> geojson (ex_args\<lparr>vrt := True, gpkg := True\<rparr>)
   \<and> gen_next ex_env (zoom_index_gen (ex_args\<lparr>vrt := True, gpkg := True\<rparr>), ex_world) =
       (Raised (NotImplementedError ''writing VRTs is not yet enabled''), Finished, ex_world)
   \<and> files ex_world ex_index = None"
  using vrt_is_not_implemented [of "ex_args\<lparr>vrt := True, gpkg := True\<rparr>" ex_env ex_world]
  by (simp add: ex_args_def ex_world_def)

section \<open>The writer and the snapshot\<close>

text \<open>
  Claim C1, as the code has it. Let a writer be constructed over an index file, whatever
  the file holds, and let any sequence of calls of \<^verbatim>\<open>write\<close> follow, complete or ended by
  a failure of the file layer.

  \<^item> When the tiles of the calls have pairwise distinct identifiers and the configured
    field name is not \<open>tile_id\<close>, no two entries of the index share a \<open>tile_id\<close>
    afterwards.
  \<^item> For a tile whose \<open>tile_id\<close> is found in the index file as it was before the run, a
    call of \<^verbatim>\<open>write\<close>, with any path, returns without an exception and leaves the
    writer, every file and the number of entries as they were.

  The snapshot is never extended, so an identifier that was only appended earlier in
  the same run is not recognised.
\<close>

theorem tile_id_stays_unique:
  assumes init: "VectorFileWriter_init E p crs fname drv w = (Inr wr, w1)"
    and run: "write_seq E wr calls w1 = (r, wr', w')"
  shows "(fname \<noteq> ''tile_id'' \<and> distinct (map (\<lambda>c. str_index (tile_id (fst c))) calls) \<longrightarrow>
            distinct (map feature_tile_id (entries w' p)))
    \<and> (\<forall>t q v. Some (PStr (str_index (tile_id t))) \<in> feature_tile_id ` set (entries w p) \<longrightarrow>
          (\<exists>v'. VectorFileWriter_write E wr' t q v = (None, wr', v')
             \<and> files v' = files v
             \<and> length (entries v' p) = length (entries v p)))"
proof -
  note i = init_ok[OF init]
  note k = write_seq_keeps[OF run]
  from i have ex: "existing_of [] (entries w p) = Inr (existing wr)"
    and cp: "c_path (file_obj wr) = p" and fnm: "fieldname wr = fname"
    and e1: "entries w1 p = map snd (existing wr)" by simp_all
  have inv: "distinct (map fst (existing wr)) \<and>
     (\<forall>(k, f)\<in>set (existing wr). feature_tile_id f = Some k \<and> f \<in> set (entries w p))"
    by (rule existing_of_inv[OF ex]) auto
  have ids: "map feature_tile_id (entries w1 p) = map (\<lambda>x. Some (fst x)) (existing wr)"
    unfolding e1 using inv by auto
  have a: "fname \<noteq> ''tile_id'' \<and> distinct (map (\<lambda>c. str_index (tile_id (fst c))) calls) \<longrightarrow>
            distinct (map feature_tile_id (entries w' p))"
  proof
    assume h: "fname \<noteq> ''tile_id'' \<and> distinct (map (\<lambda>c. str_index (tile_id (fst c))) calls)"
    have d1: "distinct (map feature_tile_id (entries w1 (c_path (file_obj wr))))"
      unfolding cp ids using inv by (simp add: distinct_map inj_on_def)
    have "feature_tile_id ` set (entries w1 p) = Some ` fst ` set (existing wr)"
      using ids by (metis image_image list.set_map)
    then have c1: "\<forall>c\<in>set calls. PStr (str_index (tile_id (fst c))) \<in> fst ` set (existing wr)
      \<or> Some (PStr (str_index (tile_id (fst c))))
           \<notin> feature_tile_id ` set (entries w1 (c_path (file_obj wr)))"
      unfolding cp by auto
    from h fnm have f: "fieldname wr \<noteq> ''tile_id''" by simp
    from write_seq_unique[OF run f _ d1 c1] h cp
    show "distinct (map feature_tile_id (entries w' p))" by simp
  qed
  have b: "\<forall>t q v. Some (PStr (str_index (tile_id t))) \<in> feature_tile_id ` set (entries w p) \<longrightarrow>
          (\<exists>v'. VectorFileWriter_write E wr' t q v = (None, wr', v')
             \<and> files v' = files v
             \<and> length (entries v' p) = length (entries v p))"
  proof (intro allI impI)
    fix t q v
    assume "Some (PStr (str_index (tile_id t))) \<in> feature_tile_id ` set (entries w p)"
    with existing_of_keys[OF ex] k
    have "PStr (str_index (tile_id t)) \<in> fst ` set (existing wr')" by simp
    from write_existing[OF this, of E q v]
    show "\<exists>v'. VectorFileWriter_write E wr' t q v = (None, wr', v')
             \<and> files v' = files v
             \<and> length (entries v' p) = length (entries v p)"
      by (simp add: entries_def)
  qed
  from a b show ?thesis by blast
qed

theorem tile_id_stays_unique_witness:
  "fst (VectorFileWriter_init ex_env ex_index ''EPSG:4326'' ''location'' ''GeoJSON'' ex_world_old)
     = Inr (ex_writer ''EPSG:4326'' ''location'' [(PStr ''(5, 0, 0)'', ex_old)])
   \<and> ''location'' \<noteq> ''tile_id''
   \<and> distinct (map (\<lambda>c. str_index (tile_id (fst c))) ex_calls)
   \<and> distinct (map feature_tile_id
       (entries (snd (snd (write_seq ex_env
            (ex_writer ''EPSG:4326'' ''location'' [(PStr ''(5, 0, 0)'', ex_old)]) ex_calls
            (snd (VectorFileWriter_init ex_env ex_index ''EPSG:4326'' ''location'' ''GeoJSON''
                    ex_world_old))))) ex_index))
   \<and> Some (PStr (str_index (tile_id (ex_tile 0 0))))
       \<in> feature_tile_id ` set (entries ex_world_old ex_index)
   \<and> (\<exists>v'. VectorFileWriter_write ex_env
         (fst (snd (write_seq ex_env
            (ex_writer ''EPSG:4326'' ''location'' [(PStr ''(5, 0, 0)'', ex_old)]) ex_calls
            (snd (VectorFileWriter_init ex_env ex_index ''EPSG:4326'' ''location'' ''GeoJSON''
                    ex_world_old)))))
         (ex_tile 0 0) ''/elsewhere/5/0/0.tif'' ex_world_old
       = (None,
          fst (snd (write_seq ex_env
            (ex_writer ''EPSG:4326'' ''location'' [(PStr ''(5, 0, 0)'', ex_old)]) ex_calls
            (snd (VectorFileWriter_init ex_env ex_index ''EPSG:4326'' ''location'' ''GeoJSON''
                    ex_world_old)))),
          v')
       \<and> files v' = files ex_world_old)"
proof -
  let ?wr = "ex_writer ''EPSG:4326'' ''location'' [(PStr ''(5, 0, 0)'', ex_old)]"
  let ?w1 = "snd (VectorFileWriter_init ex_env ex_index ''EPSG:4326'' ''location'' ''GeoJSON''
                    ex_world_old)"
  have h2: "write_seq ex_env ?wr ex_calls ?w1 =
     (fst (write_seq ex_env ?wr ex_calls ?w1), fst (snd (write_seq ex_env ?wr ex_calls ?w1)),
      snd (snd (write_seq ex_env ?wr ex_calls ?w1)))"
    by simp
  have h1: "fst (VectorFileWriter_init ex_env ex_index ''EPSG:4326'' ''location'' ''GeoJSON'' ex_world_old)
     = Inr ?wr"
    using ex_init_old by (metis fst_conv)
  have n: "''location'' \<noteq> ''tile_id''" by simp
  have d: "distinct (map (\<lambda>c. str_index (tile_id (fst c))) ex_calls)"
    by (simp add: ex_calls_def ex_strings)
  have o: "Some (PStr (str_index (tile_id (ex_tile 0 0))))
       \<in> feature_tile_id ` set (entries ex_world_old ex_index)"
    by (simp add: ex_strings entries_def ex_world_old_def ex_index_def feature_tile_id_def
        ex_old_def)
  from tile_id_stays_unique[OF ex_init_old h2] h1 n d o show ?thesis
    by blast
qed

text \<open>
  Claim C1 as stated fails for an identifier appended earlier in the same run: a writer
  that found no index file, given the same tile twice, stores two entries for it.
\<close>

theorem same_run_duplicate_counterexample:
  "entries (snd (snd (write_seq ex_env (ex_writer ''EPSG:4326'' ''location'' [])
       [(ex_tile 0 0, ''/data/out/5/0/0.tif''), (ex_tile 0 0, ''/data/out/5/0/0.tif'')] ex_world)))
     ex_index
   = [tile_record ''location'' (ex_tile 0 0) ''/data/out/5/0/0.tif'',
      tile_record ''location'' (ex_tile 0 0) ''/data/out/5/0/0.tif'']
   \<and> entries (snd (snd (write_seq ex_env (ex_writer ''EPSG:4326'' ''location'' [])
       [(ex_tile 0 0, ''/data/out/5/0/0.tif'')] ex_world)))
     ex_index
   = [tile_record ''location'' (ex_tile 0 0) ''/data/out/5/0/0.tif'']
   \<and> feature_tile_id (tile_record ''location'' (ex_tile 0 0) ''/data/out/5/0/0.tif'')
   = Some (PStr ''(5, 0, 0)'')"
  by (simp add: VectorFileWriter_write_def VectorFileWriter_entry_exists_def ex_env_def
      ex_world_def ex_writer_def ex_index_def Let_def entries_def feature_tile_id_def
      tile_record_def ex_strings)

text \<open>
  Claim C3. First write wins. Let a writer be constructed over an index file and let any
  sequence of calls follow. For a tile whose identifier is a key of the snapshot, with
  stored record \<open>f\<close>: every call of \<^verbatim>\<open>write\<close> for that tile, with any path, returns
  without an exception and leaves the writer and all files as they were; the snapshot is
  never modified; \<open>f\<close> is a record of the file as it was before the run; and after the
  run the entry of the index with that identifier is \<open>f\<close> itself, path and geometry
  included.
\<close>

theorem first_write_wins:
  assumes init: "VectorFileWriter_init E p crs fname drv w = (Inr wr, w1)"
    and run: "write_seq E wr calls w1 = (r, wr', w')"
    and snap: "(PStr (str_index (tile_id t)), f) \<in> set (existing wr)"
  shows "(\<forall>q v. \<exists>v'. VectorFileWriter_write E wr' t q v = (None, wr', v') \<and> files v' = files v)
    \<and> existing wr' = existing wr
    \<and> f \<in> set (entries w p)
    \<and> List.find (\<lambda>g. feature_tile_id g = Some (PStr (str_index (tile_id t)))) (entries w' p) = Some f"
proof -
  note i = init_ok[OF init]
  note k = write_seq_keeps[OF run]
  from i have ex: "existing_of [] (entries w p) = Inr (existing wr)" by simp
  have inv: "distinct (map fst (existing wr)) \<and>
     (\<forall>(k, f)\<in>set (existing wr). feature_tile_id f = Some k \<and> f \<in> set (entries w p))"
    by (rule existing_of_inv[OF ex]) auto
  from k i obtain fs where fs: "entries w' p = map snd (existing wr) @ fs" by auto
  have a: "\<forall>q v. \<exists>v'. VectorFileWriter_write E wr' t q v = (None, wr', v') \<and> files v' = files v"
  proof (intro allI)
    fix q v
    from snap k have "PStr (str_index (tile_id t)) \<in> fst ` set (existing wr')" by force
    from write_existing[OF this, of E q v]
    show "\<exists>v'. VectorFileWriter_write E wr' t q v = (None, wr', v') \<and> files v' = files v" by simp
  qed
  have b: "f \<in> set (entries w p)" using inv snap by auto
  have c: "List.find (\<lambda>g. feature_tile_id g = Some (PStr (str_index (tile_id t)))) (entries w' p) = Some f"
    unfolding fs using inv snap by (intro find_snapshot) auto
  from a b c k show ?thesis by simp
qed

theorem first_write_wins_witness:
  "fst (VectorFileWriter_init ex_env ex_index ''EPSG:4326'' ''location'' ''GeoJSON'' ex_world_old)
     = Inr (ex_writer ''EPSG:4326'' ''location'' [(PStr ''(5, 0, 0)'', ex_old)])
   \<and> (PStr (str_index (tile_id (ex_tile 0 0))), ex_old)
       \<in> set (existing (ex_writer ''EPSG:4326'' ''location'' [(PStr ''(5, 0, 0)'', ex_old)]))
   \<and> List.find (\<lambda>g. feature_tile_id g = Some (PStr (str_index (tile_id (ex_tile 0 0)))))
       (entries (snd (snd (write_seq ex_env
            (ex_writer ''EPSG:4326'' ''location'' [(PStr ''(5, 0, 0)'', ex_old)]) ex_calls
            (snd (VectorFileWriter_init ex_env ex_index ''EPSG:4326'' ''location'' ''GeoJSON''
                    ex_world_old))))) ex_index)
     = Some ex_old
   \<and> map_of (properties ex_old) ''location'' = Some (PStr ''/old/out/5/0/0.tif'')"
proof -
  have h2: "write_seq ex_env (ex_writer ''EPSG:4326'' ''location'' [(PStr ''(5, 0, 0)'', ex_old)])
      ex_calls
      (snd (VectorFileWriter_init ex_env ex_index ''EPSG:4326'' ''location'' ''GeoJSON'' ex_world_old))
    = (fst (write_seq ex_env (ex_writer ''EPSG:4326'' ''location'' [(PStr ''(5, 0, 0)'', ex_old)])
      ex_calls
      (snd (VectorFileWriter_init ex_env ex_index ''EPSG:4326'' ''location'' ''GeoJSON'' ex_world_old))),
       fst (snd (write_seq ex_env (ex_writer ''EPSG:4326'' ''location'' [(PStr ''(5, 0, 0)'', ex_old)])
      ex_calls
      (snd (VectorFileWriter_init ex_env ex_index ''EPSG:4326'' ''location'' ''GeoJSON'' ex_world_old)))),
       snd (snd (write_seq ex_env (ex_writer ''EPSG:4326'' ''location'' [(PStr ''(5, 0, 0)'', ex_old)])
      ex_calls
      (snd (VectorFileWriter_init ex_env ex_index ''EPSG:4326'' ''location'' ''GeoJSON'' ex_world_old)))))"
    by simp
  have h3: "(PStr (str_index (tile_id (ex_tile 0 0))), ex_old)
       \<in> set (existing (ex_writer ''EPSG:4326'' ''location'' [(PStr ''(5, 0, 0)'', ex_old)]))"
    by (simp add: ex_strings ex_writer_def)
  have h4: "map_of (properties ex_old) ''location'' = Some (PStr ''/old/out/5/0/0.tif'')"
    by (simp add: ex_old_def)
  have h1: "fst (VectorFileWriter_init ex_env ex_index ''EPSG:4326'' ''location'' ''GeoJSON'' ex_world_old)
     = Inr (ex_writer ''EPSG:4326'' ''location'' [(PStr ''(5, 0, 0)'', ex_old)])"
    using ex_init_old by (metis fst_conv)
  from first_write_wins[OF ex_init_old h2 h3] h1 h3 h4 show ?thesis
    by blast
qed

section \<open>The record of a tile\<close>

text \<open>
  Claim C5, as the code has it. A call of \<^verbatim>\<open>write\<close> for a tile whose identifier is not
  in the snapshot, which the file layer accepts, appends exactly one record to the index
  file, changes no other file and counts the record, whatever the field name. The
  geometry of the record is the mapping of the tile's bounding polygon as the tile has
  it (the writer never reprojects; its reference system is only handed to the file),
  and its property under the configured field name is the given path. Each of the
  properties \<open>tile_id\<close> (the identifier printed as a string), \<open>zoom\<close>, \<open>row\<close> and \<open>col\<close>
  (printed as strings) has that value unless the field name is that very key. When the
  field name is none of the four, the properties are these four and the field name with
  the path, in this order. The schema declares \<open>zoom\<close>, \<open>row\<close> and \<open>col\<close> as integers.
\<close>

theorem write_appends_tile_record:
  assumes "PStr (str_index (tile_id t)) \<notin> fst ` set (existing wr)"
    and "io_fault E (Write (c_path (file_obj wr)) (tile_record (fieldname wr) t q)) = None"
  shows "\<exists>w' r. VectorFileWriter_write E wr t q w = (None, wr\<lparr>new_entries := new_entries wr + 1\<rparr>, w')
     \<and> files w' = (files w)(c_path (file_obj wr) \<mapsto> entries w (c_path (file_obj wr)) @ [r])
     \<and> entries w' (c_path (file_obj wr)) = entries w (c_path (file_obj wr)) @ [r]
     \<and> geometry r = mapping (bbox t)
     \<and> map_of (properties r) (fieldname wr) = Some (PStr q)
     \<and> (fieldname wr \<noteq> ''tile_id'' \<longrightarrow>
          map_of (properties r) ''tile_id'' = Some (PStr (str_index (tile_id t))))
     \<and> (fieldname wr \<noteq> ''zoom'' \<longrightarrow>
          map_of (properties r) ''zoom'' = Some (PStr (str_int (zoom t))))
     \<and> (fieldname wr \<noteq> ''row'' \<longrightarrow>
          map_of (properties r) ''row'' = Some (PStr (str_int (row t))))
     \<and> (fieldname wr \<noteq> ''col'' \<longrightarrow>
          map_of (properties r) ''col'' = Some (PStr (str_int (col t))))
     \<and> (fieldname wr \<notin> {''tile_id'', ''zoom'', ''row'', ''col''} \<longrightarrow>
          properties r =
            [(''tile_id'', PStr (str_index (tile_id t))), (''zoom'', PStr (str_int (zoom t))),
             (''row'', PStr (str_int (row t))), (''col'', PStr (str_int (col t))),
             (fieldname wr, PStr q)])
     \<and> map_of (s_properties spatial_schema) ''zoom'' = Some ''int''
     \<and> map_of (s_properties spatial_schema) ''row'' = Some ''int''
     \<and> map_of (s_properties spatial_schema) ''col'' = Some ''int''"
proof -
  let ?r = "tile_record (fieldname wr) t q"
  let ?p = "c_path (file_obj wr)"
  let ?w' = "append_records ?p [?r]
        (logger (Dbg_exists t False) (logger (Dbg_write q (VectorFileWriter_repr wr)) w))"
  have s: "VectorFileWriter_write E wr t q w = (None, wr\<lparr>new_entries := new_entries wr + 1\<rparr>, ?w')"
    by (rule write_new[OF assms])
  have f: "files ?w' = (files w)(?p \<mapsto> entries w ?p @ [?r])" by simp
  have e: "entries ?w' ?p = entries w ?p @ [?r]" by simp
  have g: "geometry ?r = mapping (bbox t)"
    by (simp add: tile_record_def)
  have m: "map_of (properties ?r) (fieldname wr) = Some (PStr q)"
    by (simp add: tile_record_def update_conv')
  have k1: "fieldname wr \<noteq> ''tile_id'' \<longrightarrow>
          map_of (properties ?r) ''tile_id'' = Some (PStr (str_index (tile_id t)))"
    by (simp add: tile_record_def update_conv')
  have k2: "fieldname wr \<noteq> ''zoom'' \<longrightarrow>
          map_of (properties ?r) ''zoom'' = Some (PStr (str_int (zoom t)))"
    by (simp add: tile_record_def update_conv')
  have k3: "fieldname wr \<noteq> ''row'' \<longrightarrow>
          map_of (properties ?r) ''row'' = Some (PStr (str_int (row t)))"
    by (simp add: tile_record_def update_conv')
  have k4: "fieldname wr \<noteq> ''col'' \<longrightarrow>
          map_of (properties ?r) ''col'' = Some (PStr (str_int (col t)))"
    by (simp add: tile_record_def update_conv')
  have pl: "fieldname wr \<notin> {''tile_id'', ''zoom'', ''row'', ''col''} \<longrightarrow>
          properties ?r =
            [(''tile_id'', PStr (str_index (tile_id t))), (''zoom'', PStr (str_int (zoom t))),
             (''row'', PStr (str_int (row t))), (''col'', PStr (str_int (col t))),
             (fieldname wr, PStr q)]"
    using tile_record_plain[of "fieldname wr" t q] by blast
  have sc: "map_of (s_properties spatial_schema) ''zoom'' = Some ''int''
     \<and> map_of (s_properties spatial_schema) ''row'' = Some ''int''
     \<and> map_of (s_properties spatial_schema) ''col'' = Some ''int''"
    by (simp add: spatial_schema_def)
  from s f e g m k1 k2 k3 k4 pl sc show ?thesis by blast
qed

theorem write_appends_tile_record_witness:
  "PStr (str_index (tile_id (ex_tile 0 1)))
     \<notin> fst ` set (existing (ex_writer ''EPSG:4326'' ''location'' [(PStr ''(5, 0, 0)'', ex_old)]))
   \<and> fieldname (ex_writer ''EPSG:4326'' ''location'' [(PStr ''(5, 0, 0)'', ex_old)])
       \<notin> {''tile_id'', ''zoom'', ''row'', ''col''}
   \<and> (\<exists>w' r. VectorFileWriter_write ex_env
                 (ex_writer ''EPSG:4326'' ''location'' [(PStr ''(5, 0, 0)'', ex_old)])
                 (ex_tile 0 1) ''/data/out/5/0/1.tif'' ex_world_old
               = (None, (ex_writer ''EPSG:4326'' ''location'' [(PStr ''(5, 0, 0)'', ex_old)])
                          \<lparr>new_entries := 1\<rparr>, w')
        \<and> files w' = [ex_index \<mapsto> [ex_old, r]]
        \<and> entries w' ex_index = [ex_old, r]
        \<and> geometry r = mapping (bbox (ex_tile 0 1))
        \<and> map_of (properties r) ''location'' = Some (PStr ''/data/out/5/0/1.tif'')
        \<and> properties r =
            [(''tile_id'', PStr ''(5, 0, 1)''), (''zoom'', PStr ''5''), (''row'', PStr ''0''),
             (''col'', PStr ''1''), (''location'', PStr ''/data/out/5/0/1.tif'')])"
proof -
  let ?wr = "ex_writer ''EPSG:4326'' ''location'' [(PStr ''(5, 0, 0)'', ex_old)]"
  have h1: "PStr (str_index (tile_id (ex_tile 0 1))) \<notin> fst ` set (existing ?wr)"
    by (simp add: ex_strings ex_writer_def)
  have h2: "io_fault ex_env (Write (c_path (file_obj ?wr))
               (tile_record (fieldname ?wr) (ex_tile 0 1) ''/data/out/5/0/1.tif'')) = None"
    by (simp add: ex_env_def)
  have h3: "fieldname ?wr \<notin> {''tile_id'', ''zoom'', ''row'', ''col''}"
    by (simp add: ex_writer_def)
  have c: "c_path (file_obj ?wr) = ex_index" "new_entries ?wr = 0"
    "entries ex_world_old ex_index = [ex_old]" "fieldname ?wr = ''location''"
    "files ex_world_old = [ex_index \<mapsto> [ex_old]]"
    by (simp_all add: ex_writer_def ex_index_def ex_world_old_def entries_def)
  have z: "zoom (ex_tile 0 1) = 5" "row (ex_tile 0 1) = 0" "col (ex_tile 0 1) = 1"
    by (simp_all add: ex_tile_def)
  from write_appends_tile_record[OF h1 h2, of ex_world_old] h1 h3
  show ?thesis by (simp add: c z ex_strings) blast
qed

text \<open>
  Claim C5 as stated fails when the configured field name is one of the fixed property
  names: with the field name \<open>zoom\<close> the record has four properties and its \<open>zoom\<close> is
  the path, not the zoom level \<open>5\<close> printed as a string. The geometry is that of the
  tile in the tile's own reference system, though the writer was opened with another.
\<close>

theorem field_name_clash_counterexample:
  "VectorFileWriter_write ex_env (ex_writer ''EPSG:3857'' ''zoom'' []) (ex_tile 0 1)
       ''/data/out/5/0/1.tif'' ex_world
     = (None, (ex_writer ''EPSG:3857'' ''zoom'' [])\<lparr>new_entries := 1\<rparr>,
        \<lparr>files = [ex_index \<mapsto>
            [\<lparr>geometry = \<lparr>gtype = ''Polygon'',
                           coordinates = [[(1, 0), (2, 0), (2, 1), (1, 1), (1, 0)]]\<rparr>,
              properties = [(''tile_id'', PStr ''(5, 0, 1)''),
                            (''zoom'', PStr ''/data/out/5/0/1.tif''),
                            (''row'', PStr ''0''), (''col'', PStr ''1'')]\<rparr>]],
         log = [Dbg_write ''/data/out/5/0/1.tif'' ''VectorFileWriter(GeoJSON, /data/out/5.geojson)'',
                Dbg_exists (ex_tile 0 1) False]\<rparr>)
   \<and> str_int (zoom (ex_tile 0 1)) = ''5''
   \<and> bbox (ex_tile 0 1) = [(1, 0), (2, 0), (2, 1), (1, 1), (1, 0)]
   \<and> tile_crs (ex_tile 0 1) = ''EPSG:4326''
   \<and> c_crs (file_obj (ex_writer ''EPSG:3857'' ''zoom'' [])) = ''EPSG:3857''"
  by (simp add: VectorFileWriter_write_def VectorFileWriter_entry_exists_def ex_env_def
      ex_world_def ex_writer_def ex_index_def Let_def tile_record_def ex_strings
      VectorFileWriter_repr_def logger_def append_records_def mapping_def)
     (simp add: ex_tile_def ex_strings)

section \<open>Merging with an earlier index\<close>

text \<open>
  Claim C4, as the code has it. Let the file layer never fail and let the index hold \<open>N\<close>
  entries with pairwise distinct identifiers. A run that writes \<open>M\<close> tiles with pairwise
  distinct identifiers, none of them among the \<open>N\<close>, leaves the \<open>N\<close> old records
  unchanged, followed by the \<open>M\<close> new ones: \<open>N + M\<close> entries. When moreover the
  configured field name is not \<open>tile_id\<close>, a second run over the result with the same
  tiles appends nothing and leaves the same entries.
\<close>

theorem merge_arithmetic:
  assumes nofault: "\<forall>x. io_fault E x = None"
    and drv: "drv = ''GeoJSON'' \<or> drv = ''GPKG''"
    and old: "entries w p = old" "map feature_tile_id old = map Some ks" "distinct ks"
    and new: "distinct (map (\<lambda>c. str_index (tile_id (fst c))) calls)"
             "\<forall>c\<in>set calls. PStr (str_index (tile_id (fst c))) \<notin> set ks"
  shows "\<exists>wr w1 wr' w'.
      VectorFileWriter_init E p crs fname drv w = (Inr wr, w1)
    \<and> write_seq E wr calls w1 = (None, wr', w')
    \<and> entries w' p = old @ map (\<lambda>c. tile_record fname (fst c) (snd c)) calls
    \<and> length (entries w' p) = length old + length calls
    \<and> (fname \<noteq> ''tile_id'' \<longrightarrow>
        (\<exists>wr2 w2 wr2' w2'.
            VectorFileWriter_init E p crs fname drv w' = (Inr wr2, w2)
          \<and> write_seq E wr2 calls w2 = (None, wr2', w2')
          \<and> new_entries wr2' = 0
          \<and> entries w2' p = entries w' p))"
proof -
  have len: "length ks = length old" using old(2) by (metis length_map)
  have ex: "existing_of [] (entries w p) = Inr (zip ks old)"
    using existing_of_fresh[OF old(2,3), of "[]"] old(1) by simp
  from init_success[OF nofault drv ex, of crs fname] obtain wr w1 where
    i: "VectorFileWriter_init E p crs fname drv w = (Inr wr, w1)"
    and exw: "existing wr = zip ks old" and e1: "entries w1 p = map snd (zip ks old)"
    by blast
  note ok = init_ok[OF i]
  have cp: "c_path (file_obj wr) = p" and fnm: "fieldname wr = fname" using ok by simp_all
  have "map fst (existing wr) = ks" using exw len by simp
  then have keys: "fst ` set (existing wr) = set ks" by (simp flip: set_map)
  have e1': "entries w1 p = old" using e1 len by simp
  have allnew: "\<forall>c\<in>set calls. PStr (str_index (tile_id (fst c))) \<notin> fst ` set (existing wr)"
    using new(2) keys by simp
  let ?wr' = "wr\<lparr>new_entries := new_entries wr + length calls\<rparr>"
  from write_seq_all_new[OF nofault allnew, of w1] obtain w' where
    r: "write_seq E wr calls w1 = (None, ?wr', w')"
    and e2raw: "entries w' (c_path (file_obj wr)) =
         entries w1 (c_path (file_obj wr)) @ map (\<lambda>c. tile_record (fieldname wr) (fst c) (snd c)) calls"
    by blast
  have e2: "entries w' p = old @ map (\<lambda>c. tile_record fname (fst c) (snd c)) calls"
    using e2raw cp fnm e1' by simp
  have l2: "length (entries w' p) = length old + length calls" using e2 by simp
  have second: "fname \<noteq> ''tile_id'' \<longrightarrow> (\<exists>wr2 w2 wr2' w2'.
            VectorFileWriter_init E p crs fname drv w' = (Inr wr2, w2)
          \<and> write_seq E wr2 calls w2 = (None, wr2', w2')
          \<and> new_entries wr2' = 0
          \<and> entries w2' p = entries w' p)"
  proof
    assume fn: "fname \<noteq> ''tile_id''"
    let ?ids = "map (\<lambda>c. PStr (str_index (tile_id (fst c)))) calls"
    let ?old2 = "old @ map (\<lambda>c. tile_record fname (fst c) (snd c)) calls"
    have ids: "map feature_tile_id ?old2 = map Some (ks @ ?ids)"
      using old(2) fn by (simp add: tile_record_tile_id comp_def)
    have "distinct ?ids"
      using new(1) by (simp add: distinct_map inj_on_def comp_def)
    then have d: "distinct (ks @ ?ids)" using old(3) new(2) by auto
    have ex2: "existing_of [] (entries w' p) = Inr (zip (ks @ ?ids) ?old2)"
      using existing_of_fresh[OF ids d, of "[]"] e2 by simp
    from init_success[OF nofault drv ex2, of crs fname] obtain wr2 w2 where
      i2: "VectorFileWriter_init E p crs fname drv w' = (Inr wr2, w2)"
      and exw2: "existing wr2 = zip (ks @ ?ids) ?old2"
      and e3: "entries w2 p = map snd (zip (ks @ ?ids) ?old2)"
      by blast
    note ok2 = init_ok[OF i2]
    have ne2: "new_entries wr2 = 0" using ok2 by simp
    have len2: "length (ks @ ?ids) = length ?old2" using len by simp
    have "map fst (existing wr2) = ks @ ?ids" unfolding exw2 using len2 by (rule map_fst_zip)
    then have keys2: "fst ` set (existing wr2) = set (ks @ ?ids)" by (simp flip: set_map)
    have e3': "entries w2 p = ?old2" unfolding e3 using len2 by (rule map_snd_zip)
    have "\<forall>c\<in>set calls. PStr (str_index (tile_id (fst c))) \<in> fst ` set (existing wr2)"
      unfolding keys2 by simp
    from write_seq_all_existing[OF this, of E w2] obtain w2' where
      r2: "write_seq E wr2 calls w2 = (None, wr2, w2')" and f2: "files w2' = files w2"
      by blast
    have "entries w2' p = entries w2 p" using f2 by (simp add: entries_def)
    then have e4: "entries w2' p = entries w' p" using e3' e2 by simp
    from i2 r2 ne2 e4 show "\<exists>wr2 w2 wr2' w2'.
            VectorFileWriter_init E p crs fname drv w' = (Inr wr2, w2)
          \<and> write_seq E wr2 calls w2 = (None, wr2', w2')
          \<and> new_entries wr2' = 0
          \<and> entries w2' p = entries w' p"
      by blast
  qed
  from i r e2 l2 second show ?thesis by blast
qed

theorem merge_arithmetic_witness:
  "(\<forall>x. io_fault ex_env x = None)
   \<and> entries ex_world_old ex_index = [ex_old]
   \<and> map feature_tile_id [ex_old] = map Some [PStr ''(5, 0, 0)'']
   \<and> PStr (str_index (tile_id (ex_tile 0 1))) \<notin> set [PStr ''(5, 0, 0)'']
   \<and> (\<exists>wr w1 wr' w'.
        VectorFileWriter_init ex_env ex_index ''EPSG:4326'' ''location'' ''GeoJSON'' ex_world_old
          = (Inr wr, w1)
      \<and> write_seq ex_env wr [(ex_tile 0 1, ''/data/out/5/0/1.tif'')] w1 = (None, wr', w')
      \<and> entries w' ex_index
          = [ex_old, tile_record ''location'' (ex_tile 0 1) ''/data/out/5/0/1.tif'']
      \<and> (\<exists>wr2 w2 wr2' w2'.
            VectorFileWriter_init ex_env ex_index ''EPSG:4326'' ''location'' ''GeoJSON'' w'
              = (Inr wr2, w2)
          \<and> write_seq ex_env wr2 [(ex_tile 0 1, ''/data/out/5/0/1.tif'')] w2 = (None, wr2', w2')
          \<and> new_entries wr2' = 0
          \<and> entries w2' ex_index = entries w' ex_index))"
proof -
  have h1: "\<forall>x. io_fault ex_env x = None" by (simp add: ex_env_def)
  have h2: "''GeoJSON'' = ''GeoJSON'' \<or> ''GeoJSON'' = ''GPKG''" by simp
  have h3: "entries ex_world_old ex_index = [ex_old]"
    by (simp add: ex_world_old_def ex_index_def entries_def)
  have h4: "map feature_tile_id [ex_old] = map Some [PStr ''(5, 0, 0)'']"
    by (simp add: feature_tile_id_def ex_old_def)
  have h5: "distinct [PStr ''(5, 0, 0)'']" by simp
  have h6: "distinct (map (\<lambda>c. str_index (tile_id (fst c))) [(ex_tile 0 1, ''/data/out/5/0/1.tif'')])"
    by simp
  have h7: "\<forall>c\<in>set [(ex_tile 0 1, ''/data/out/5/0/1.tif'')].
         PStr (str_index (tile_id (fst c))) \<notin> set [PStr ''(5, 0, 0)'']"
    by (simp add: ex_strings)
  have n: "''location'' \<noteq> ''tile_id''" by simp
  from merge_arithmetic[OF h1 h2 h3 h4 h5 h6 h7, of "''EPSG:4326''" "''location''"] n h1 h3 h4 h7
  show ?thesis by (simp del: write_seq.simps) blast
qed

text \<open>
  Claim C4 as stated fails when the configured field name is \<open>tile_id\<close>: the record of
  a tile then carries the path as its \<open>tile_id\<close>, so a second run over the unchanged
  output does not recognise the tile and appends it again. One tile, an empty output
  directory: one entry after the first run, two after the second.
\<close>

theorem field_name_tile_id_counterexample:
  "entries (index_run ex_env ex_index ''EPSG:4326'' ''tile_id'' ''GeoJSON''
              [(ex_tile 0 1, ''/data/out/5/0/1.tif'')] ex_world) ex_index
     = [tile_record ''tile_id'' (ex_tile 0 1) ''/data/out/5/0/1.tif'']
   \<and> entries (index_run ex_env ex_index ''EPSG:4326'' ''tile_id'' ''GeoJSON''
                [(ex_tile 0 1, ''/data/out/5/0/1.tif'')]
                (index_run ex_env ex_index ''EPSG:4326'' ''tile_id'' ''GeoJSON''
                   [(ex_tile 0 1, ''/data/out/5/0/1.tif'')] ex_world)) ex_index
     = [tile_record ''tile_id'' (ex_tile 0 1) ''/data/out/5/0/1.tif'',
        tile_record ''tile_id'' (ex_tile 0 1) ''/data/out/5/0/1.tif'']
   \<and> feature_tile_id (tile_record ''tile_id'' (ex_tile 0 1) ''/data/out/5/0/1.tif'')
     = Some (PStr ''/data/out/5/0/1.tif'')
   \<and> str_index (tile_id (ex_tile 0 1)) = ''(5, 0, 1)''"
  by (simp add: index_run_def VectorFileWriter_init_def load_existing_def
      VectorFileWriter_write_def VectorFileWriter_entry_exists_def VectorFileWriter_close_def
      ex_env_def ex_world_def ex_index_def Let_def entries_def feature_tile_id_def
      tile_record_def ex_strings)

section \<open>The generator\<close>

subsection \<open>What the log tells of a step\<close>

lemma offers_head:
  assumes "\<forall>t b m'. m \<noteq> Dbg_exists t b # m'"
  shows "offers (ev # m) = offers m"
proof (cases m)
  case Nil
  then show ?thesis by simp
next
  case (Cons ev' m')
  with assms have "\<forall>t b. ev' \<noteq> Dbg_exists t b" by blast
  with Cons show ?thesis by (cases ev; cases ev') auto
qed

lemma offers_append [simp]:
  "\<forall>t b m'. m \<noteq> Dbg_exists t b # m' \<Longrightarrow> offers (l @ m) = offers l @ offers m"
  by (induction l rule: offers.induct) (simp_all add: offers_head)

lemma close_attempts_append [simp]: "close_attempts (a @ b) = close_attempts a @ close_attempts b"
  by (simp add: close_attempts_def)

lemma close_errors_append [simp]: "close_errors (a @ b) = close_errors a @ close_errors b"
  by (simp add: close_errors_def)

lemma close_attempts_simps [simp]:
  "close_attempts [] = []" "close_attempts (ev # l) = close_of ev @ close_attempts l"
  by (simp_all add: close_attempts_def)

lemma close_errors_simps [simp]:
  "close_errors [] = []" "close_errors (ev # l) = close_error_of ev @ close_errors l"
  by (simp_all add: close_errors_def)

lemma write_repr:
  "VectorFileWriter_write E wr t p w = (r, wr', w') \<Longrightarrow>
   VectorFileWriter_repr wr' = VectorFileWriter_repr wr"
  using write_keeps[of E wr t p w r wr' w'] by (simp add: VectorFileWriter_repr_def)

lemma write_log:
  "VectorFileWriter_write E wr t p w = (r, wr', w') \<Longrightarrow>
   VectorFileWriter_repr wr' = VectorFileWriter_repr wr
   \<and> offers (log w') = offers (log w) @ [(t, p, VectorFileWriter_repr wr)]
   \<and> close_attempts (log w') = close_attempts (log w)
   \<and> close_errors (log w') = close_errors (log w)"
proof -
  assume a: "VectorFileWriter_write E wr t p w = (r, wr', w')"
  then have "\<exists>b. log w' = log w @ [Dbg_write p (VectorFileWriter_repr wr), Dbg_exists t b]"
    by (auto simp: VectorFileWriter_write_def VectorFileWriter_entry_exists_def Let_def
        split: if_splits option.splits)
  with write_repr[OF a] show ?thesis by auto
qed

lemma write_no_fault:
  "\<forall>p f. io_fault E (Write p f) = None \<Longrightarrow> fst (VectorFileWriter_write E wr t p w) = None"
  by (simp add: VectorFileWriter_write_def VectorFileWriter_entry_exists_def Let_def)

lemma write_all_log:
  "write_all E ws t p w = (r, ws', w') \<Longrightarrow>
   map VectorFileWriter_repr ws' = map VectorFileWriter_repr ws
   \<and> close_attempts (log w') = close_attempts (log w)
   \<and> close_errors (log w') = close_errors (log w)
   \<and> (r = None \<longrightarrow>
        offers (log w') = offers (log w) @ map (\<lambda>wr. (t, p, VectorFileWriter_repr wr)) ws)"
proof (induction ws arbitrary: w r ws' w')
  case Nil
  then show ?case by simp
next
  case (Cons wr ws)
  obtain r1 wr1 w1 where s: "VectorFileWriter_write E wr t p w = (r1, wr1, w1)"
    by (cases "VectorFileWriter_write E wr t p w") auto
  note l = write_log[OF s]
  show ?case
  proof (cases r1)
    case (Some e)
    with Cons.prems s have "r = Some e" "ws' = wr1 # ws" "w' = w1" by auto
    with l show ?thesis by simp
  next
    case None
    obtain r2 ws2 w2 where s2: "write_all E ws t p w1 = (r2, ws2, w2)"
      by (cases "write_all E ws t p w1") auto
    with None Cons.prems s have "r = r2" "ws' = wr1 # ws2" "w' = w2" by auto
    with Cons.IH[OF s2] l show ?thesis by simp
  qed
qed

lemma write_all_no_fault:
  "\<forall>p f. io_fault E (Write p f) = None \<Longrightarrow> fst (write_all E ws t p w) = None"
proof (induction ws arbitrary: w)
  case Nil
  then show ?case by simp
next
  case (Cons wr ws)
  obtain r1 wr1 w1 where s: "VectorFileWriter_write E wr t p w = (r1, wr1, w1)"
    by (cases "VectorFileWriter_write E wr t p w") auto
  with write_no_fault[OF Cons.prems, of wr t p w] have "r1 = None" by simp
  with s Cons.IH[OF Cons.prems, of w1] show ?case
    by (auto split: prod.splits)
qed


lemma process_tile_ok:
  assumes "\<forall>p f. io_fault E (Write p f) = None"
    and "get_path (mp a) t = Inr orig" and "tiles_exist (mp a) t = Inr ex"
  shows "\<exists>ws' w'. process_tile E a ws t w = (None, ws', w')
     \<and> map VectorFileWriter_repr ws' = map VectorFileWriter_repr ws
     \<and> offers (log w') = offers (log w) @
         (if ex then map (\<lambda>wr. (t, tile_path (path_is_remote E) orig (basepath a) (for_gdal a),
                                 VectorFileWriter_repr wr)) ws else [])
     \<and> (\<not> ex \<longrightarrow> ws' = ws \<and> files w' = files w)"
proof (cases ex)
  case False
  with assms show ?thesis by (simp add: process_tile_def Let_def)
next
  case True
  let ?p = "tile_path (path_is_remote E) orig (basepath a) (for_gdal a)"
  let ?w1 = "logger (Dbg_analyze t) w"
  obtain r ws' w' where s: "write_all E ws t ?p ?w1 = (r, ws', w')"
    by (cases "write_all E ws t ?p ?w1") auto
  with write_all_no_fault[OF assms(1), of ws t ?p ?w1] have "r = None" by simp
  with write_all_log[OF s] s True assms(2,3) show ?thesis
    by (simp add: process_tile_def Let_def)
qed

lemma finally_close_log:
  assumes "\<forall>p e. io_fault E (Close p) = Some e \<longrightarrow> is_Exception e"
  shows "\<exists>w'. finally_close E ws w = (None, w')
     \<and> close_attempts (log w') = close_attempts (log w) @ map VectorFileWriter_repr ws
     \<and> close_errors (log w') = close_errors (log w) @ failed_closes E ws
     \<and> offers (log w') = offers (log w)
     \<and> files w' = files w"
proof (induction ws arbitrary: w)
  case Nil
  show ?case by simp
next
  case (Cons wr ws)
  show ?case
  proof (cases "io_fault E (Close (c_path (file_obj wr)))")
    case None
    with Cons[of "logger (Dbg_new_entries (new_entries wr) (VectorFileWriter_repr wr))
                   (logger (Dbg_close (VectorFileWriter_repr wr)) w)"]
    show ?thesis by (simp add: VectorFileWriter_close_def Let_def)
  next
    case (Some e)
    with assms have "is_Exception e" by blast
    with Some Cons[of "logger (Err_not_closed e (VectorFileWriter_repr wr))
                  (logger (Dbg_new_entries (new_entries wr) (VectorFileWriter_repr wr))
                   (logger (Dbg_close (VectorFileWriter_repr wr)) w))"]
    show ?thesis by (simp add: VectorFileWriter_close_def Let_def)
  qed
qed

lemma finish_log:
  assumes "\<forall>p e. io_fault E (Close p) = Some e \<longrightarrow> is_Exception e"
  shows "\<exists>w'. finish E ws out w = (out, Finished, w')
     \<and> close_attempts (log w') = close_attempts (log w) @ map VectorFileWriter_repr ws
     \<and> close_errors (log w') = close_errors (log w) @ failed_closes E ws
     \<and> offers (log w') = offers (log w)
     \<and> files w' = files w"
  using finally_close_log[OF assms, of ws w] by (auto simp: finish_def)

subsection \<open>Writers held and writers closed\<close>

lemma init_log:
  "VectorFileWriter_init E p crs fname drv w = (r, w1) \<Longrightarrow> log w1 = log w @ [Dbg_initialize drv]"
  by (auto simp: VectorFileWriter_init_def load_existing_def Let_def
      split: if_splits option.splits sum.splits prod.splits)

lemma open_writers_log:
  assumes "open_writers E a w = (r, ws, w1)"
  shows "close_attempts (log w1) = close_attempts (log w)
     \<and> close_errors (log w1) = close_errors (log w)
     \<and> offers (log w1) = offers (log w)"
proof -
  have i: "\<And>p crs fname drv v r v1. VectorFileWriter_init E p crs fname drv v = (r, v1) \<Longrightarrow>
      close_attempts (log v1) = close_attempts (log v)
      \<and> close_errors (log v1) = close_errors (log v) \<and> offers (log v1) = offers (log v)"
    by (drule init_log) simp
  from assms show ?thesis
    by (auto simp: open_writers_def split: if_splits prod.splits sum.splits option.splits dest!: i)
qed









subsection \<open>A run to exhaustion\<close>

lemma write_files_cong:
  assumes "files v = files w"
  shows "\<exists>v'. VectorFileWriter_write E wr t p v =
           (fst (VectorFileWriter_write E wr t p w), fst (snd (VectorFileWriter_write E wr t p w)), v')
         \<and> files v' = files (snd (snd (VectorFileWriter_write E wr t p w)))"
  using assms
  by (auto simp: VectorFileWriter_write_def VectorFileWriter_entry_exists_def Let_def
      append_records_def logger_def split: option.splits)

lemma write_all_files_cong:
  "files v = files w \<Longrightarrow>
   \<exists>v'. write_all E ws t p v = (fst (write_all E ws t p w), fst (snd (write_all E ws t p w)), v')
         \<and> files v' = files (snd (snd (write_all E ws t p w)))"
proof (induction ws arbitrary: v w)
  case Nil
  then show ?case by simp
next
  case (Cons wr ws)
  obtain r1 wr1 w1 where s: "VectorFileWriter_write E wr t p w = (r1, wr1, w1)"
    by (cases "VectorFileWriter_write E wr t p w") auto
  with write_files_cong[OF Cons.prems, of E wr t p]
  obtain v1 where sv: "VectorFileWriter_write E wr t p v = (r1, wr1, v1)" and f1: "files v1 = files w1"
    by auto
  show ?case
  proof (cases r1)
    case (Some e)
    with s sv f1 show ?thesis by simp
  next
    case None
    obtain r2 ws2 w2 where s2: "write_all E ws t p w1 = (r2, ws2, w2)"
      by (cases "write_all E ws t p w1") auto
    with Cons.IH[OF f1] obtain v2 where "write_all E ws t p v1 = (r2, ws2, v2)" "files v2 = files w2"
      by auto
    with None s sv s2 show ?thesis by simp
  qed
qed

lemma process_tile_files_cong:
  assumes "files v = files w"
    and "get_path (mp b) t = get_path (mp a) t" "tiles_exist (mp b) t = tiles_exist (mp a) t"
    and "basepath b = basepath a" "for_gdal b = for_gdal a"
  shows "\<exists>v'. process_tile E b ws t v =
            (fst (process_tile E a ws t w), fst (snd (process_tile E a ws t w)), v')
         \<and> files v' = files (snd (snd (process_tile E a ws t w)))"
proof -
  have f: "files (logger (Dbg_analyze t) v) = files (logger (Dbg_analyze t) w)"
    using assms(1) by simp
  show ?thesis
    using assms write_all_files_cong[OF f, of E ws t]
    by (auto simp: process_tile_def Let_def split: sum.splits)
qed

lemma exhaust_suspended:
  assumes nw: "\<forall>p f. io_fault E (Write p f) = None"
    and H: "\<forall>p e. io_fault E (Close p) = Some e \<longrightarrow> is_Exception e"
  shows "\<forall>t\<in>set ts. get_path (mp a) t = Inr (gp t) \<Longrightarrow>
     \<forall>t\<in>set ts. tiles_exist (mp a) t = Inr (ex t) \<Longrightarrow>
     map VectorFileWriter_repr ws = rs \<Longrightarrow>
     \<exists>w'. drive E (replicate (Suc (length ts)) Next) (Suspended a ws ts, w) =
             (map Yield ts @ [StopIteration], Finished, w')
       \<and> offers (log w') = offers (log w) @
           concat (map (\<lambda>t. if ex t
              then map (\<lambda>r. (t, tile_path (path_is_remote E) (gp t) (basepath a) (for_gdal a), r)) rs
              else []) ts)"
proof (induction ts arbitrary: ws w)
  case Nil
  with finish_log[OF H, of ws StopIteration w] show ?case by auto
next
  case (Cons t ts)
  from Cons.prems have g: "get_path (mp a) t = Inr (gp t)" and e: "tiles_exist (mp a) t = Inr (ex t)"
    by auto
  from process_tile_ok[OF nw g e, of ws w] obtain ws1 w1 where
    p: "process_tile E a ws t w = (None, ws1, w1)"
    and r: "map VectorFileWriter_repr ws1 = map VectorFileWriter_repr ws"
    and o: "offers (log w1) = offers (log w) @
         (if ex t then map (\<lambda>wr. (t, tile_path (path_is_remote E) (gp t) (basepath a) (for_gdal a),
                                 VectorFileWriter_repr wr)) ws else [])"
    by blast
  from Cons.prems have a1: "\<forall>t\<in>set ts. get_path (mp a) t = Inr (gp t)"
    and a2: "\<forall>t\<in>set ts. tiles_exist (mp a) t = Inr (ex t)" by auto
  from r Cons.prems(3) have r1: "map VectorFileWriter_repr ws1 = rs" by simp
  from Cons.IH[OF a1 a2 r1, of w1] obtain w' where
    d: "drive E (replicate (Suc (length ts)) Next) (Suspended a ws1 ts, w1) =
             (map Yield ts @ [StopIteration], Finished, w')"
    and o': "offers (log w') = offers (log w1) @
           concat (map (\<lambda>t. if ex t
              then map (\<lambda>r. (t, tile_path (path_is_remote E) (gp t) (basepath a) (for_gdal a), r)) rs
              else []) ts)"
    by blast
  have m: "map (\<lambda>wr. (t, tile_path (path_is_remote E) (gp t) (basepath a) (for_gdal a),
                                 VectorFileWriter_repr wr)) ws
    = map (\<lambda>r. (t, tile_path (path_is_remote E) (gp t) (basepath a) (for_gdal a), r)) rs"
    using Cons.prems(3) by auto
  have "drive E (replicate (Suc (length (t # ts))) Next) (Suspended a ws (t # ts), w) =
      (map Yield (t # ts) @ [StopIteration], Finished, w')"
    using p d by simp
  moreover have "offers (log w') = offers (log w) @
           concat (map (\<lambda>t. if ex t
              then map (\<lambda>r. (t, tile_path (path_is_remote E) (gp t) (basepath a) (for_gdal a), r)) rs
              else []) (t # ts))"
    using o o' m by simp
  ultimately show ?case by blast
qed

lemma drive_next_yield:
  "process_tile E a ws t w = (None, ws1, w1) \<Longrightarrow>
   drive E (Next # ops) (Suspended a ws (t # ts), w) =
     (Yield t # fst (drive E ops (Suspended a ws1 ts, w1)),
      snd (drive E ops (Suspended a ws1 ts, w1)))"
  by (simp split: prod.splits)

lemma exhaust_files:
  assumes nw: "\<forall>p f. io_fault E (Write p f) = None"
    and H: "\<forall>p e. io_fault E (Close p) = Some e \<longrightarrow> is_Exception e"
    and ab: "get_path (mp b) = get_path (mp a)" "tiles_exist (mp b) = tiles_exist (mp a)"
      "basepath b = basepath a" "for_gdal b = for_gdal a"
  shows "\<forall>t\<in>set ts. get_path (mp a) t = Inr (gp t) \<Longrightarrow>
     \<forall>t\<in>set ts. tiles_exist (mp a) t = Inr (ex t) \<Longrightarrow>
     files v = files w \<Longrightarrow>
     files (snd (snd (drive E (replicate (Suc (length (filter ex ts))) Next)
                        (Suspended b ws (filter ex ts), v))))
     = files (snd (snd (drive E (replicate (Suc (length ts)) Next) (Suspended a ws ts, w))))"
proof (induction ts arbitrary: ws w v)
  case Nil
  with finish_log[OF H, of ws StopIteration w] finish_log[OF H, of ws StopIteration v]
  show ?case by auto
next
  case (Cons t ts)
  from Cons.prems have g: "get_path (mp a) t = Inr (gp t)" and e: "tiles_exist (mp a) t = Inr (ex t)"
    by auto
  from Cons.prems have a1: "\<forall>t\<in>set ts. get_path (mp a) t = Inr (gp t)"
    and a2: "\<forall>t\<in>set ts. tiles_exist (mp a) t = Inr (ex t)" by auto
  from process_tile_ok[OF nw g e, of ws w] obtain ws1 w1 where
    p: "process_tile E a ws t w = (None, ws1, w1)"
    and n: "\<not> ex t \<longrightarrow> ws1 = ws \<and> files w1 = files w"
    by blast
  have l: "snd (drive E (replicate (Suc (length (t # ts))) Next) (Suspended a ws (t # ts), w))
     = snd (drive E (replicate (Suc (length ts)) Next) (Suspended a ws1 ts, w1))"
    using drive_next_yield[OF p, of "replicate (Suc (length ts)) Next" ts]
    by (simp del: drive.simps)
  show ?case
  proof (cases "ex t")
    case False
    with n Cons.prems(3) have "files v = files w1" "ws1 = ws" by auto
    from Cons.IH[OF a1 a2 this(1), of ws] this(2) l False show ?thesis
      by (simp del: drive.simps)
  next
    case True
    from process_tile_files_cong[OF Cons.prems(3), of b t a E ws] ab p
    obtain v1 where pv: "process_tile E b ws t v = (None, ws1, v1)" and f: "files v1 = files w1"
      by auto
    have "snd (drive E (replicate (Suc (length (filter ex (t # ts)))) Next)
              (Suspended b ws (filter ex (t # ts)), v))
     = snd (drive E (replicate (Suc (length (filter ex ts))) Next)
              (Suspended b ws1 (filter ex ts), v1))"
      using drive_next_yield[OF pv, of "replicate (Suc (length (filter ex ts))) Next" "filter ex ts"] True
      by (simp del: drive.simps)
    with Cons.IH[OF a1 a2 f, of ws1] l show ?thesis
      by (simp del: drive.simps)
  qed
qed

lemma open_writers_restrict: "open_writers E (restrict_area P a) w = open_writers E a w"
  by (simp add: open_writers_def restrict_area_def
      cong: if_cong prod.case_cong option.case_cong sum.case_cong)

lemma first_next_valid:
  assumes "geojson a \<or> gpkg a" "\<not> vrt a"
    and "open_writers E a w = (None, ws, w1)"
    and "tiles_from_geom (mp a) (a_zoom a) = Inr ts"
  shows "gen_next E (Created a, w) =
     loop E a ws ts (logger (Dbg_writers (map VectorFileWriter_repr ws)) w1)"
  using assms by (auto simp: Let_def)

lemma exhaust_created:
  assumes fmt: "geojson a \<or> gpkg a" "\<not> vrt a"
    and ow: "open_writers E a w = (None, ws, w1)"
    and tg: "tiles_from_geom (mp a) (a_zoom a) = Inr ts"
  shows "drive E (replicate (Suc (length ts)) Next) (Created a, w) =
     drive E (replicate (Suc (length ts)) Next)
       (Suspended a ws ts, logger (Dbg_writers (map VectorFileWriter_repr ws)) w1)"
  using first_next_valid[OF assms] by simp

lemma ex_open:
  "open_writers ex_env ex_args ex_world =
     (None, [ex_writer ''EPSG:4326'' ''location'' []],
      snd (snd (open_writers ex_env ex_args ex_world)))"
  by (simp add: prod_eq_iff open_writers_def VectorFileWriter_init_def ex_env_def
      ex_args_def ex_mp_def ex_world_def ex_writer_def
      index_file_path_def os_path_join_def ex_strings Let_def)

subsection \<open>The log only grows\<close>

lemma write_ext:
  "VectorFileWriter_write E wr t p w = (r, wr', w') \<Longrightarrow> \<exists>l. log w' = log w @ l"
  by (auto simp: VectorFileWriter_write_def VectorFileWriter_entry_exists_def Let_def
      split: if_splits option.splits)

lemma write_all_ext:
  "write_all E ws t p w = (r, ws', w') \<Longrightarrow> \<exists>l. log w' = log w @ l"
proof (induction ws arbitrary: w r ws' w')
  case Nil
  then show ?case by simp
next
  case (Cons wr ws)
  obtain r1 wr1 w1 where s: "VectorFileWriter_write E wr t p w = (r1, wr1, w1)"
    by (cases "VectorFileWriter_write E wr t p w") auto
  from write_ext[OF s] obtain l1 where l1: "log w1 = log w @ l1" by blast
  show ?case
  proof (cases r1)
    case (Some e)
    with Cons.prems s l1 show ?thesis by auto
  next
    case None
    obtain r2 ws2 w2 where s2: "write_all E ws t p w1 = (r2, ws2, w2)"
      by (cases "write_all E ws t p w1") auto
    from Cons.IH[OF s2] obtain l2 where "log w2 = log w1 @ l2" by blast
    with None Cons.prems s s2 l1 show ?thesis by auto
  qed
qed

lemma process_tile_ext:
  "process_tile E a ws t w = (r, ws', w') \<Longrightarrow> \<exists>l. log w' = log w @ l"
  by (auto simp: process_tile_def Let_def split: sum.splits if_splits dest!: write_all_ext)

lemma finally_close_ext:
  "finally_close E ws w = (r, w') \<Longrightarrow> \<exists>l. log w' = log w @ l"
proof (induction ws arbitrary: w)
  case Nil
  then show ?case by simp
next
  case (Cons wr ws)
  let ?w1 = "logger (Dbg_new_entries (new_entries wr) (VectorFileWriter_repr wr))
                   (logger (Dbg_close (VectorFileWriter_repr wr)) w)"
  show ?case
  proof (cases "io_fault E (Close (c_path (file_obj wr)))")
    case None
    with Cons.prems have "finally_close E ws ?w1 = (r, w')"
      by (simp add: VectorFileWriter_close_def Let_def)
    from Cons.IH[OF this] show ?thesis by auto
  next
    case (Some e)
    show ?thesis
    proof (cases "is_Exception e")
      case True
      with Some Cons.prems
      have "finally_close E ws (logger (Err_not_closed e (VectorFileWriter_repr wr)) ?w1) = (r, w')"
        by (simp add: VectorFileWriter_close_def Let_def)
      from Cons.IH[OF this] show ?thesis by auto
    next
      case False
      with Some Cons.prems show ?thesis
        by (auto simp: VectorFileWriter_close_def Let_def)
    qed
  qed
qed

lemma finish_ext:
  "finish E ws out w = (out', g', w') \<Longrightarrow> \<exists>l. log w' = log w @ l"
  by (auto simp: finish_def split: prod.splits option.splits dest!: finally_close_ext)

lemma loop_ext:
  assumes "loop E a ws ts w = (out, g', w')"
  shows "\<exists>l. log w' = log w @ l"
proof (cases ts)
  case Nil
  with assms show ?thesis by (auto dest!: finish_ext)
next
  case (Cons t ts')
  obtain r ws1 w1 where p: "process_tile E a ws t w = (r, ws1, w1)"
    by (cases "process_tile E a ws t w") auto
  from process_tile_ext[OF p] obtain l1 where l1: "log w1 = log w @ l1" by blast
  show ?thesis
  proof (cases r)
    case None
    with assms Cons p l1 show ?thesis by auto
  next
    case (Some e)
    with assms Cons p have "finish E ws1 (Raised e) w1 = (out, g', w')" by simp
    from finish_ext[OF this] l1 show ?thesis by auto
  qed
qed

lemma open_writers_ext:
  assumes "geojson a \<or> gpkg a" and "open_writers E a w = (r, ws, w1)"
  shows "\<exists>l. log w1 = log w @ Dbg_initialize (if geojson a then ''GeoJSON'' else ''GPKG'') # l"
proof -
  have i: "\<And>p crs fname drv v r v1. VectorFileWriter_init E p crs fname drv v = (r, v1) \<Longrightarrow>
      log v1 = log v @ [Dbg_initialize drv]"
    by (rule init_log)
  from assms show ?thesis
    by (auto simp: open_writers_def split: if_splits prod.splits sum.splits option.splits dest!: i)
qed

lemma first_next_ext:
  assumes fmt: "geojson a \<or> gpkg a" "\<not> vrt a"
  shows "\<exists>l. log (snd (snd (gen_next E (Created a, w)))) =
     log w @ Dbg_initialize (if geojson a then ''GeoJSON'' else ''GPKG'') # l"
proof -
  obtain r ws w1 where ow: "open_writers E a w = (r, ws, w1)"
    by (cases "open_writers E a w") auto
  from open_writers_ext[OF fmt(1) ow] obtain l1 where
    l1: "log w1 = log w @ Dbg_initialize (if geojson a then ''GeoJSON'' else ''GPKG'') # l1"
    by blast
  obtain out g' w' where s: "gen_next E (Created a, w) = (out, g', w')"
    by (cases "gen_next E (Created a, w)") auto
  have "\<exists>l. log w' = log w1 @ l"
  proof (cases r)
    case (Some e)
    with s fmt ow have "finish E ws (Raised e) w1 = (out, g', w')" by simp
    from finish_ext[OF this] show ?thesis .
  next
    case None
    let ?w2 = "logger (Dbg_writers (map VectorFileWriter_repr ws)) w1"
    have "\<exists>l. log w' = log ?w2 @ l"
    proof (cases "tiles_from_geom (mp a) (a_zoom a)")
      case (Inl e)
      with None s fmt ow have "finish E ws (Raised e) ?w2 = (out, g', w')" by (simp add: Let_def)
      from finish_ext[OF this] show ?thesis .
    next
      case (Inr ts)
      with None s fmt ow have "loop E a ws ts ?w2 = (out, g', w')" by (simp add: Let_def)
      from loop_ext[OF this] show ?thesis .
    qed
    then show ?thesis by auto
  qed
  with l1 s show ?thesis by auto
qed

section \<open>Cleanup\<close>



section \<open>Existence gating\<close>

text \<open>
  Claim C6. Every tile of the area is yielded exactly once, in order, whether its output
  exists or not, and a tile is handed to the writers exactly when its output exists.
  For a run to exhaustion in which the collaborators and the file layer's writes do not
  fail: the outcomes are the tiles of \<^verbatim>\<open>tiles_from_geom\<close> in order, then \<^verbatim>\<open>StopIteration\<close>;
  the calls of \<^verbatim>\<open>write\<close> are, tile by tile in that order, one call per open writer with
  that very tile and its resolved path when \<^verbatim>\<open>tiles_exist\<close> holds of the tile, and none
  otherwise; and the files the run leaves are those of the run over the area without
  the tiles that have no output, so such a tile contributes no entry.
\<close>

theorem existence_gating:
  assumes fmt: "geojson a \<or> gpkg a" "\<not> vrt a"
    and ow: "open_writers E a w = (None, ws, w1)"
    and tg: "tiles_from_geom (mp a) (a_zoom a) = Inr ts"
    and gp: "\<forall>t\<in>set ts. get_path (mp a) t = Inr (gp t)"
    and te: "\<forall>t\<in>set ts. tiles_exist (mp a) t = Inr (ex t)"
    and nw: "\<forall>p f. io_fault E (Write p f) = None"
    and H: "\<forall>p e. io_fault E (Close p) = Some e \<longrightarrow> is_Exception e"
  shows "\<exists>w'. drive E (replicate (Suc (length ts)) Next) (zoom_index_gen a, w)
                 = (map Yield ts @ [StopIteration], Finished, w')
     \<and> offers (log w') = offers (log w) @
          concat (map (\<lambda>t. if ex t
             then map (\<lambda>wr. (t, tile_path (path_is_remote E) (gp t) (basepath a) (for_gdal a),
                              VectorFileWriter_repr wr)) ws
             else []) ts)
     \<and> files w' = files (snd (snd (drive E (replicate (Suc (length (filter ex ts))) Next)
                                      (zoom_index_gen (restrict_area ex a), w))))"
proof -
  let ?w2 = "logger (Dbg_writers (map VectorFileWriter_repr ws)) w1"
  let ?b = "restrict_area ex a"
  have o2: "offers (log ?w2) = offers (log w)"
    using open_writers_log[OF ow] by simp
  from exhaust_suspended[OF nw H gp te refl, of ws ?w2] obtain w' where
    d: "drive E (replicate (Suc (length ts)) Next) (Suspended a ws ts, ?w2) =
             (map Yield ts @ [StopIteration], Finished, w')"
    and o: "offers (log w') = offers (log ?w2) @
           concat (map (\<lambda>t. if ex t
              then map (\<lambda>r. (t, tile_path (path_is_remote E) (gp t) (basepath a) (for_gdal a), r))
                     (map VectorFileWriter_repr ws)
              else []) ts)"
    by blast
  have m: "\<And>t. map (\<lambda>r. (t, tile_path (path_is_remote E) (gp t) (basepath a) (for_gdal a), r))
                     (map VectorFileWriter_repr ws)
      = map (\<lambda>wr. (t, tile_path (path_is_remote E) (gp t) (basepath a) (for_gdal a),
                              VectorFileWriter_repr wr)) ws"
    by simp
  have A: "drive E (replicate (Suc (length ts)) Next) (zoom_index_gen a, w)
                 = (map Yield ts @ [StopIteration], Finished, w')"
    using exhaust_created[OF fmt ow tg] d by (simp only: zoom_index_gen_def)
  have B: "offers (log w') = offers (log w) @
          concat (map (\<lambda>t. if ex t
             then map (\<lambda>wr. (t, tile_path (path_is_remote E) (gp t) (basepath a) (for_gdal a),
                              VectorFileWriter_repr wr)) ws
             else []) ts)"
    using o o2 by (simp only: m)
  have bf: "geojson ?b \<or> gpkg ?b" "\<not> vrt ?b" using fmt by (simp_all add: restrict_area_def)
  have bo: "open_writers E ?b w = (None, ws, w1)" using ow by (simp add: open_writers_restrict)
  have bt: "tiles_from_geom (mp ?b) (a_zoom ?b) = Inr (filter ex ts)"
    using tg by (simp add: restrict_area_def)
  have ab: "get_path (mp ?b) = get_path (mp a)" "tiles_exist (mp ?b) = tiles_exist (mp a)"
      "basepath ?b = basepath a" "for_gdal ?b = for_gdal a"
    by (simp_all add: restrict_area_def)
  have "files (snd (snd (drive E (replicate (Suc (length (filter ex ts))) Next)
                        (Suspended ?b ws (filter ex ts), ?w2))))
     = files (snd (snd (drive E (replicate (Suc (length ts)) Next) (Suspended a ws ts, ?w2))))"
    by (rule exhaust_files[OF nw H ab gp te refl])
  then have C: "files w' = files (snd (snd (drive E (replicate (Suc (length (filter ex ts))) Next)
                                      (zoom_index_gen ?b, w))))"
    using exhaust_created[OF bf bo bt] d by (simp only: zoom_index_gen_def snd_conv)
  from A B C show ?thesis by blast
qed

theorem existence_gating_witness:
  "geojson ex_args \<and> \<not> vrt ex_args
   \<and> (\<forall>x. io_fault ex_env x = None)
   \<and> fst (open_writers ex_env ex_args ex_world) = None
   \<and> tiles_from_geom (mp ex_args) (a_zoom ex_args)
     = Inr [ex_tile 0 0, ex_tile 0 1, ex_tile 1 0, ex_tile 1 1]
   \<and> map (tiles_exist (mp ex_args)) [ex_tile 0 0, ex_tile 0 1, ex_tile 1 0, ex_tile 1 1]
     = [Inr True, Inr True, Inr True, Inr False]
   \<and> fst (drive ex_env [Next, Next, Next, Next, Next] (zoom_index_gen ex_args, ex_world))
     = [Yield (ex_tile 0 0), Yield (ex_tile 0 1), Yield (ex_tile 1 0), Yield (ex_tile 1 1),
        StopIteration]
   \<and> offers (log (snd (snd
        (drive ex_env [Next, Next, Next, Next, Next] (zoom_index_gen ex_args, ex_world)))))
     = [(ex_tile 0 0, ''/data/out/5/0/0.tif'',
         ''VectorFileWriter(GeoJSON, /data/out/5.geojson)''),
        (ex_tile 0 1, ''/data/out/5/0/1.tif'',
         ''VectorFileWriter(GeoJSON, /data/out/5.geojson)''),
        (ex_tile 1 0, ''/data/out/5/1/0.tif'',
         ''VectorFileWriter(GeoJSON, /data/out/5.geojson)'')]
   \<and> files (snd (snd
        (drive ex_env [Next, Next, Next, Next, Next] (zoom_index_gen ex_args, ex_world))))
     = files (snd (snd
        (drive ex_env [Next, Next, Next, Next]
           (zoom_index_gen (restrict_area (\<lambda>t. \<not> (row t = 1 \<and> col t = 1)) ex_args),
            ex_world))))"
proof -
  let ?ts = "[ex_tile 0 0, ex_tile 0 1, ex_tile 1 0, ex_tile 1 1]"
  let ?gp = "\<lambda>t. ''/data/out/'' @ str_int (zoom t) @ ''/'' @ str_int (row t)
                              @ ''/'' @ str_int (col t) @ ''.tif''"
  let ?ex = "\<lambda>t. \<not> (row t = 1 \<and> col t = 1)"
  have f1: "geojson ex_args \<or> gpkg ex_args" and f2: "\<not> vrt ex_args" and f3: "geojson ex_args"
    by (simp_all add: ex_args_def)
  have tg: "tiles_from_geom (mp ex_args) (a_zoom ex_args) = Inr ?ts"
    by (simp add: ex_args_def ex_mp_def)
  have gp: "\<forall>t\<in>set ?ts. get_path (mp ex_args) t = Inr (?gp t)"
    by (simp add: ex_args_def ex_mp_def)
  have te: "\<forall>t\<in>set ?ts. tiles_exist (mp ex_args) t = Inr (?ex t)"
    by (simp add: ex_args_def ex_mp_def)
  have te': "map (tiles_exist (mp ex_args)) ?ts = [Inr True, Inr True, Inr True, Inr False]"
    by (simp add: ex_args_def ex_mp_def ex_tile_def)
  have nf: "\<forall>x. io_fault ex_env x = None" by (simp add: ex_env_def)
  then have nw: "\<forall>p f. io_fault ex_env (Write p f) = None"
    and H: "\<forall>p e. io_fault ex_env (Close p) = Some e \<longrightarrow> is_Exception e" by simp_all
  have fl: "filter ?ex ?ts = [ex_tile 0 0, ex_tile 0 1, ex_tile 1 0]"
    by (simp add: ex_tile_def)
  have ps: "map (\<lambda>t. tile_path (path_is_remote ex_env) (?gp t) (basepath ex_args)
                      (for_gdal ex_args)) [ex_tile 0 0, ex_tile 0 1, ex_tile 1 0]
      = [''/data/out/5/0/0.tif'', ''/data/out/5/0/1.tif'', ''/data/out/5/1/0.tif'']"
    by (simp add: tile_path_def ex_env_def ex_args_def ex_remote_def ex_tile_def ex_strings)
  have ex4: "?ex (ex_tile 0 0)" "?ex (ex_tile 0 1)" "?ex (ex_tile 1 0)" "\<not> ?ex (ex_tile 1 1)"
    by (simp_all add: ex_tile_def)
  have rp: "VectorFileWriter_repr (ex_writer ''EPSG:4326'' ''location'' [])
      = ''VectorFileWriter(GeoJSON, /data/out/5.geojson)''"
    by (simp add: VectorFileWriter_repr_def ex_writer_def)
  have l0: "offers (log ex_world) = []" by (simp add: ex_world_def)
  from existence_gating[OF f1 f2 ex_open tg gp te nw H] obtain w' where
    A: "drive ex_env (replicate (Suc (length ?ts)) Next) (zoom_index_gen ex_args, ex_world)
          = (map Yield ?ts @ [StopIteration], Finished, w')"
    and B: "offers (log w') = offers (log ex_world) @
          concat (map (\<lambda>t. if ?ex t
             then map (\<lambda>wr. (t, tile_path (path_is_remote ex_env) (?gp t) (basepath ex_args)
                                (for_gdal ex_args), VectorFileWriter_repr wr))
                    [ex_writer ''EPSG:4326'' ''location'' []]
             else []) ?ts)"
    and C: "files w' = files (snd (snd (drive ex_env (replicate (Suc (length (filter ?ex ?ts))) Next)
                                      (zoom_index_gen (restrict_area ?ex ex_args), ex_world))))"
    by blast
  have A': "drive ex_env [Next, Next, Next, Next, Next] (zoom_index_gen ex_args, ex_world)
          = ([Yield (ex_tile 0 0), Yield (ex_tile 0 1), Yield (ex_tile 1 0), Yield (ex_tile 1 1),
              StopIteration], Finished, w')"
    using A by (simp del: drive.simps)
  have B': "offers (log w')
     = [(ex_tile 0 0, ''/data/out/5/0/0.tif'',
         ''VectorFileWriter(GeoJSON, /data/out/5.geojson)''),
        (ex_tile 0 1, ''/data/out/5/0/1.tif'',
         ''VectorFileWriter(GeoJSON, /data/out/5.geojson)''),
        (ex_tile 1 0, ''/data/out/5/1/0.tif'',
         ''VectorFileWriter(GeoJSON, /data/out/5.geojson)'')]"
    using B ps ex4 by (simp add: l0 rp)
  have C': "files w' = files (snd (snd (drive ex_env [Next, Next, Next, Next]
           (zoom_index_gen (restrict_area ?ex ex_args), ex_world))))"
    using C by (simp only: fl) (simp del: drive.simps)
  have o1: "fst (open_writers ex_env ex_args ex_world) = None"
    using ex_open by (metis fst_conv)
  from f3 f2 nf o1 tg te' A' B' C' show ?thesis
    by (simp del: drive.simps)
qed

section \<open>Laziness\<close>

text \<open>
  Claim C10. Calling \<^verbatim>\<open>zoom_index_gen\<close> runs none of its body. The call is a function of
  the arguments alone and gives a generator holding no writer, for every combination of
  formats; discarding that generator leaves the world as it was. The first \<^verbatim>\<open>next\<close>
  raises the \<^verbatim>\<open>ValueError\<close> when no format is requested and the \<^verbatim>\<open>NotImplementedError\<close>
  when the VRT is, and with a valid choice of formats it is the first \<^verbatim>\<open>next\<close> whose log
  begins with the construction of the first writer.
\<close>

theorem generator_is_lazy:
  "gen_writers (zoom_index_gen a) = []
   \<and> gen_close E (zoom_index_gen a, w) = (Returned, Finished, w)
   \<and> (\<not> (geojson a \<or> gpkg a \<or> vrt a) \<longrightarrow>
        gen_next E (zoom_index_gen a, w) =
          (Raised (ValueError ''one of 'geojson', 'gpkg' or 'vrt' must be provided''),
           Finished, w))
   \<and> (vrt a \<longrightarrow>
        gen_next E (zoom_index_gen a, w) =
          (Raised (NotImplementedError ''writing VRTs is not yet enabled''), Finished, w))
   \<and> ((geojson a \<or> gpkg a) \<and> \<not> vrt a \<longrightarrow>
        (\<exists>l. log (snd (snd (gen_next E (zoom_index_gen a, w)))) =
           log w @ Dbg_initialize (if geojson a then ''GeoJSON'' else ''GPKG'') # l))"
proof -
  have A: "gen_writers (zoom_index_gen a) = []"
    and B: "gen_close E (zoom_index_gen a, w) = (Returned, Finished, w)"
    by (simp_all add: zoom_index_gen_def)
  have C: "\<not> (geojson a \<or> gpkg a \<or> vrt a) \<longrightarrow>
        gen_next E (zoom_index_gen a, w) =
          (Raised (ValueError ''one of 'geojson', 'gpkg' or 'vrt' must be provided''),
           Finished, w)"
    by (simp add: zoom_index_gen_def)
  have D: "vrt a \<longrightarrow>
        gen_next E (zoom_index_gen a, w) =
          (Raised (NotImplementedError ''writing VRTs is not yet enabled''), Finished, w)"
    by (simp add: zoom_index_gen_def)
  have F: "(geojson a \<or> gpkg a) \<and> \<not> vrt a \<longrightarrow>
        (\<exists>l. log (snd (snd (gen_next E (zoom_index_gen a, w)))) =
           log w @ Dbg_initialize (if geojson a then ''GeoJSON'' else ''GPKG'') # l)"
    using first_next_ext[of a E w] by (simp only: zoom_index_gen_def) blast
  from A B C D F show ?thesis by blast
qed

theorem generator_is_lazy_witness:
  "gen_close ex_env (zoom_index_gen (ex_args\<lparr>geojson := False\<rparr>), ex_world)
     = (Returned, Finished, ex_world)
   \<and> gen_next ex_env (zoom_index_gen (ex_args\<lparr>geojson := False\<rparr>), ex_world) =
          (Raised (ValueError ''one of 'geojson', 'gpkg' or 'vrt' must be provided''),
           Finished, ex_world)
   \<and> gen_close ex_env (zoom_index_gen (ex_args\<lparr>vrt := True\<rparr>), ex_world)
     = (Returned, Finished, ex_world)
   \<and> gen_next ex_env (zoom_index_gen (ex_args\<lparr>vrt := True\<rparr>), ex_world) =
          (Raised (NotImplementedError ''writing VRTs is not yet enabled''), Finished, ex_world)
   \<and> gen_close ex_env (zoom_index_gen ex_args, ex_world) = (Returned, Finished, ex_world)
   \<and> (\<exists>l. log (snd (snd (gen_next ex_env (zoom_index_gen ex_args, ex_world)))) =
           Dbg_initialize ''GeoJSON'' # l)"
  using generator_is_lazy[of "ex_args\<lparr>geojson := False\<rparr>" ex_env ex_world]
    generator_is_lazy[of "ex_args\<lparr>vrt := True\<rparr>" ex_env ex_world]
    generator_is_lazy[of ex_args ex_env ex_world]
  by (simp add: ex_args_def ex_world_def del: gen_next.simps gen_close.simps)

end
